theory Spec2Isabelle
  imports Main "HOL-Library.Word" "HOL-Library.Monad_Syntax"
begin

unbundle bit_operations_syntax

section \<open>Machine types and byte order\<close>

text \<open>
  The adapter-management layer of Gobbledegook (\<^verbatim>\<open>src/src/Mgmt.cpp\<close>) fills packed C
  structs and hands them to the HCI transport. An object is modelled by its byte image, a
  field assignment by a store at the field's offset. Multi-byte integers are laid out
  least significant byte first, the byte order of the hosts the server runs on and of the
  management protocol.
\<close>

type_synonym u8 = "8 word"
type_synonym u16 = "16 word"
type_synonym u32 = "32 word"
type_synonym bytes = "u8 list"

definition le16 :: "u16 \<Rightarrow> bytes" where
  "le16 w = [ucast w, ucast (drop_bit 8 w)]"

definition le32 :: "u32 \<Rightarrow> bytes" where
  "le32 w = [ucast w, ucast (drop_bit 8 w), ucast (drop_bit 16 w), ucast (drop_bit 24 w)]"

section \<open>Objects in memory\<close>

text \<open>
  \<open>uninit g n\<close> is an automatic object of \<open>n\<close> bytes that has not been initialised: its
  bytes are whatever the stack held, given by \<open>g\<close>.
\<close>

definition uninit :: "(nat \<Rightarrow> u8) \<Rightarrow> nat \<Rightarrow> bytes" where
  "uninit g n = map g [0..<n]"

text \<open>
  \<open>store obj off bs\<close> writes the bytes \<open>bs\<close> into the object at offset \<open>off\<close>. A write that
  does not lie inside the object is a fault (\<open>None\<close>).
\<close>

definition store :: "bytes \<Rightarrow> nat \<Rightarrow> bytes \<Rightarrow> bytes option" where
  "store obj off bs =
     (if off + length bs \<le> length obj
      then Some (take off obj @ bs @ drop (off + length bs) obj)
      else None)"

text \<open>\<open>memset(obj + off, c, n)\<close>.\<close>

definition memset_at :: "bytes \<Rightarrow> nat \<Rightarrow> u8 \<Rightarrow> nat \<Rightarrow> bytes option" where
  "memset_at obj off c n = store obj off (replicate n c)"

text \<open>
  A pointer handed in by the caller is either null (\<open>None\<close>) or points at a region of
  bytes (\<open>Some r\<close>, the bytes from the pointer to the end of the object it points into).
  \<open>load p n\<close> reads \<open>n\<close> bytes through it; reading through a null pointer or past the
  region is a fault.
\<close>

definition load :: "bytes option \<Rightarrow> nat \<Rightarrow> bytes option" where
  "load p n =
     (case p of
        None \<Rightarrow> None
      | Some r \<Rightarrow> if n \<le> length r then Some (take n r) else None)"

text \<open>\<open>memcpy(dst + off, src, n)\<close>.\<close>

definition memcpy_at :: "bytes \<Rightarrow> nat \<Rightarrow> bytes option \<Rightarrow> nat \<Rightarrow> bytes option" where
  "memcpy_at dst off src n = do { bs \<leftarrow> load src n; store dst off bs }"

text \<open>
  \<open>s.c_str()\<close> read as a C string: the bytes of the \<open>std::string\<close> up to, and not
  including, its first NUL character.
\<close>

definition c_str :: "string \<Rightarrow> bytes" where
  "c_str s = takeWhile (\<lambda>b. b \<noteq> 0) (map of_char s)"

text \<open>
  \<open>snprintf(obj + off, n, "%s", s)\<close>: at most \<open>n - 1\<close> bytes of the C string
  followed by a terminating NUL; nothing is written when \<open>n\<close> is 0.
\<close>

definition snprintf_s :: "bytes \<Rightarrow> nat \<Rightarrow> nat \<Rightarrow> bytes \<Rightarrow> bytes option" where
  "snprintf_s obj off n s =
     (if n = 0 then Some obj else store obj off (take (n - 1) s @ [0]))"

section \<open>The collaborators of \<open>Mgmt\<close>\<close>

text \<open>
  \<open>Mgmt.h\<close>, \<open>HciAdapter.h\<close> and \<open>Logger.h\<close> are not part of the sources at hand. What
  \<open>Mgmt.cpp\<close> uses from them is a parameter of the model: the transport
  \<open>HciAdapter::sendCommand\<close> (a transition of the transport's own state that answers
  success or failure), the table \<open>HciAdapter::kCommandCodeNames\<close>, the numeric values of
  the command codes of \<open>Mgmt\<close>, and the contents of uninitialised stack memory.
\<close>

record 't platform =
  sendCommand :: "'t \<Rightarrow> bytes \<Rightarrow> bool \<times> 't"
  kCommandCodeNames :: "u16 \<Rightarrow> string"
  stack :: "nat \<Rightarrow> u8"
  ESetPoweredCommand :: u16
  ESetDiscoverableCommand :: u16
  ESetConnectableCommand :: u16
  ESetBondableCommand :: u16
  ESetLowEnergyCommand :: u16
  ESetLocalNameCommand :: u16
  ESetAdvertisingCommand :: u16
  ESetBREDRCommand :: u16
  ESetSecureConnectionsCommand :: u16
  EAddAdvertisingCommand :: u16

text \<open>
  Modelled from the spec: the constants \<open>kMaxAdvertisingNameLength\<close> and
  \<open>kMaxAdvertisingShortNameLength\<close> of the missing \<open>Mgmt.h\<close>. The specification gives the
  name fields 249 and 11 bytes and bounds the encoded name by 248 bytes, one less than the
  field for the terminating NUL.
\<close>

definition kMaxAdvertisingNameLength :: nat where
  "kMaxAdvertisingNameLength = 248"

definition kMaxAdvertisingShortNameLength :: nat where
  "kMaxAdvertisingShortNameLength = 10"

text \<open>
  Modelled from the spec: the layout of \<open>HciAdapter::HciHeader\<close> of the missing
  \<open>HciAdapter.h\<close>, a 6-byte header of three 16-bit fields \<open>code\<close>, \<open>controllerId\<close> and
  \<open>dataSize\<close> with no padding.
\<close>

definition sizeof_HciHeader :: nat where "sizeof_HciHeader = 6"
definition off_code :: nat where "off_code = 0"
definition off_controllerId :: nat where "off_controllerId = 2"
definition off_dataSize :: nat where "off_dataSize = 4"

text \<open>
  What the process does to the outside: commands handed to the transport, delays, and
  messages handed to the logger, in the order they happen.
\<close>

datatype log_level = Debug | Info | Status | Warn | Error | Fatal | Always | Trace

datatype event = Sent bytes | Slept nat | Logged log_level string

record 't world =
  hci :: 't
  trace :: "event list"

definition HciAdapter_sendCommand :: "'t platform \<Rightarrow> bytes \<Rightarrow> 't world \<Rightarrow> bool \<times> 't world" where
  "HciAdapter_sendCommand P request w =
     (let (ok, t) = sendCommand P (hci w) request
      in (ok, w\<lparr>hci := t, trace := trace w @ [Sent request]\<rparr>))"

definition Logger_warn :: "string \<Rightarrow> 't world \<Rightarrow> 't world" where
  "Logger_warn msg w = w\<lparr>trace := trace w @ [Logged Warn msg]\<rparr>"

text \<open>\<open>usleep(us)\<close>, the argument in microseconds.\<close>

definition usleep :: "nat \<Rightarrow> 't world \<Rightarrow> 't world" where
  "usleep us w = w\<lparr>trace := trace w @ [Slept us]\<rparr>"

text \<open>Streaming an \<open>int\<close> that is not negative into the message: its decimal digits.\<close>

definition digit :: "nat \<Rightarrow> char" where
  "digit d = ''0123456789'' ! d"

function decimal :: "nat \<Rightarrow> string" where
  "decimal n = (if n < 10 then [digit n] else decimal (n div 10) @ [digit (n mod 10)])"
  by pat_completeness auto
termination
  by (relation "measure (\<lambda>n. n)") auto

declare decimal.simps [simp del]

section \<open>\<open>Mgmt\<close>\<close>

record Mgmt =
  controllerIndex :: u16

subsection \<open>Truncation of names\<close>

definition truncateName :: "string \<Rightarrow> string" where
  "truncateName name =
     (if length name \<le> kMaxAdvertisingNameLength then name
      else take kMaxAdvertisingNameLength name)"

definition truncateShortName :: "string \<Rightarrow> string" where
  "truncateShortName name =
     (if length name \<le> kMaxAdvertisingShortNameLength then name
      else take kMaxAdvertisingShortNameLength name)"

subsection \<open>\<open>Mgmt::setName\<close>\<close>

text \<open>
  \<open>struct SRequest : HciHeader { char name[249]; char shortName[11]; }\<close>, packed.
\<close>

definition sizeof_name :: nat where "sizeof_name = 249"
definition sizeof_shortName :: nat where "sizeof_shortName = 11"
definition off_name :: nat where "off_name = sizeof_HciHeader"
definition off_shortName :: nat where "off_shortName = off_name + sizeof_name"
definition sizeof_SRequest_name :: nat where
  "sizeof_SRequest_name = off_shortName + sizeof_shortName"

text \<open>The request object as it stands when it is handed to \<open>sendCommand\<close>.\<close>

definition setName_request :: "'t platform \<Rightarrow> Mgmt \<Rightarrow> string \<Rightarrow> string \<Rightarrow> bytes option" where
  "setName_request P m name0 shortName0 = do {
     let name = truncateName name0;
     let shortName = truncateShortName shortName0;
     let request = uninit (stack P) sizeof_SRequest_name;
     request \<leftarrow> store request off_code (le16 (ESetLocalNameCommand P));
     request \<leftarrow> store request off_controllerId (le16 (controllerIndex m));
     request \<leftarrow> store request off_dataSize
                  (le16 (word_of_nat (sizeof_SRequest_name - sizeof_HciHeader)));
     request \<leftarrow> memset_at request off_name 0 sizeof_name;
     request \<leftarrow> snprintf_s request off_name sizeof_name (c_str name);
     request \<leftarrow> memset_at request off_shortName 0 sizeof_shortName;
     request \<leftarrow> snprintf_s request off_shortName sizeof_shortName (c_str shortName);
     Some request
   }"

definition setName :: "'t platform \<Rightarrow> Mgmt \<Rightarrow> string \<Rightarrow> string \<Rightarrow> 't world \<Rightarrow> (bool \<times> 't world) option" where
  "setName P m name shortName w = do {
     request \<leftarrow> setName_request P m name shortName;
     let (ok, w1) = HciAdapter_sendCommand P request w;
     if \<not> ok then Some (False, Logger_warn ''  + Failed to set name'' w1)
     else Some (True, w1)
   }"

text \<open>The two name fields of a set-local-name request.\<close>

definition name_field :: "bytes \<Rightarrow> bytes" where
  "name_field request = take sizeof_name (drop off_name request)"

definition shortName_field :: "bytes \<Rightarrow> bytes" where
  "shortName_field request = take sizeof_shortName (drop off_shortName request)"

subsection \<open>\<open>Mgmt::setDiscoverable\<close>\<close>

text \<open>\<open>struct SRequest : HciHeader { uint8_t disc; uint16_t timeout; }\<close>, packed.\<close>

definition off_disc :: nat where "off_disc = sizeof_HciHeader"
definition off_timeout :: nat where "off_timeout = off_disc + 1"
definition sizeof_SRequest_disc :: nat where "sizeof_SRequest_disc = off_timeout + 2"

definition setDiscoverable_request :: "'t platform \<Rightarrow> Mgmt \<Rightarrow> u8 \<Rightarrow> u16 \<Rightarrow> bytes option" where
  "setDiscoverable_request P m disc timeout = do {
     let request = uninit (stack P) sizeof_SRequest_disc;
     request \<leftarrow> store request off_code (le16 (ESetDiscoverableCommand P));
     request \<leftarrow> store request off_controllerId (le16 (controllerIndex m));
     request \<leftarrow> store request off_dataSize
                  (le16 (word_of_nat (sizeof_SRequest_disc - sizeof_HciHeader)));
     request \<leftarrow> store request off_disc [disc];
     request \<leftarrow> store request off_timeout (le16 timeout);
     Some request
   }"

definition setDiscoverable :: "'t platform \<Rightarrow> Mgmt \<Rightarrow> u8 \<Rightarrow> u16 \<Rightarrow> 't world \<Rightarrow> (bool \<times> 't world) option" where
  "setDiscoverable P m disc timeout w = do {
     request \<leftarrow> setDiscoverable_request P m disc timeout;
     let (ok, w1) = HciAdapter_sendCommand P request w;
     if \<not> ok then Some (False, Logger_warn ''  + Failed to set discoverable'' w1)
     else Some (True, w1)
   }"

subsection \<open>\<open>Mgmt::setState\<close> and the setters built on it\<close>

text \<open>\<open>struct SRequest : HciHeader { uint8_t state; }\<close>, packed.\<close>

definition off_state :: nat where "off_state = sizeof_HciHeader"
definition sizeof_SRequest_state :: nat where "sizeof_SRequest_state = off_state + 1"

definition setState_request :: "'t platform \<Rightarrow> u16 \<Rightarrow> u16 \<Rightarrow> u8 \<Rightarrow> bytes option" where
  "setState_request P commandCode controllerId newState = do {
     let request = uninit (stack P) sizeof_SRequest_state;
     request \<leftarrow> store request off_code (le16 commandCode);
     request \<leftarrow> store request off_controllerId (le16 controllerId);
     request \<leftarrow> store request off_dataSize
                  (le16 (word_of_nat (sizeof_SRequest_state - sizeof_HciHeader)));
     request \<leftarrow> store request off_state [newState];
     Some request
   }"

definition setState_message :: "'t platform \<Rightarrow> u16 \<Rightarrow> u8 \<Rightarrow> string" where
  "setState_message P commandCode newState =
     ''  + Failed to set '' @ kCommandCodeNames P commandCode @ '' state to: ''
       @ decimal (unat newState)"

definition setState :: "'t platform \<Rightarrow> u16 \<Rightarrow> u16 \<Rightarrow> u8 \<Rightarrow> 't world \<Rightarrow> (bool \<times> 't world) option" where
  "setState P commandCode controllerId newState w = do {
     request \<leftarrow> setState_request P commandCode controllerId newState;
     let (ok, w1) = HciAdapter_sendCommand P request w;
     if \<not> ok then Some (False, Logger_warn (setState_message P commandCode newState) w1)
     else Some (True, w1)
   }"

definition setPowered :: "'t platform \<Rightarrow> Mgmt \<Rightarrow> bool \<Rightarrow> 't world \<Rightarrow> (bool \<times> 't world) option" where
  "setPowered P m newState =
     setState P (ESetPoweredCommand P) (controllerIndex m) (if newState then 1 else 0)"

definition setBredr :: "'t platform \<Rightarrow> Mgmt \<Rightarrow> bool \<Rightarrow> 't world \<Rightarrow> (bool \<times> 't world) option" where
  "setBredr P m newState =
     setState P (ESetBREDRCommand P) (controllerIndex m) (if newState then 1 else 0)"

definition setSecureConnections :: "'t platform \<Rightarrow> Mgmt \<Rightarrow> u8 \<Rightarrow> 't world \<Rightarrow> (bool \<times> 't world) option" where
  "setSecureConnections P m newState =
     setState P (ESetSecureConnectionsCommand P) (controllerIndex m) newState"

definition setBondable :: "'t platform \<Rightarrow> Mgmt \<Rightarrow> bool \<Rightarrow> 't world \<Rightarrow> (bool \<times> 't world) option" where
  "setBondable P m newState =
     setState P (ESetBondableCommand P) (controllerIndex m) (if newState then 1 else 0)"

definition setConnectable :: "'t platform \<Rightarrow> Mgmt \<Rightarrow> bool \<Rightarrow> 't world \<Rightarrow> (bool \<times> 't world) option" where
  "setConnectable P m newState =
     setState P (ESetConnectableCommand P) (controllerIndex m) (if newState then 1 else 0)"

definition setLE :: "'t platform \<Rightarrow> Mgmt \<Rightarrow> bool \<Rightarrow> 't world \<Rightarrow> (bool \<times> 't world) option" where
  "setLE P m newState =
     setState P (ESetLowEnergyCommand P) (controllerIndex m) (if newState then 1 else 0)"

definition setAdvertising :: "'t platform \<Rightarrow> Mgmt \<Rightarrow> u8 \<Rightarrow> 't world \<Rightarrow> (bool \<times> 't world) option" where
  "setAdvertising P m newState =
     setState P (ESetAdvertisingCommand P) (controllerIndex m) newState"

subsection \<open>\<open>Mgmt::setRawAdvertisingData\<close>\<close>

text \<open>\<open>RawAdvertisingData\<close> of \<^verbatim>\<open>Gobbledegook.h\<close>: two lengths and two pointers.\<close>

record RawAdvertisingData =
  advDataLen :: u8
  rspDataLen :: u8
  advData :: "bytes option"
  rspData :: "bytes option"

text \<open>
  \<open>struct SRequest : HciHeader { uint8_t Instance; uint32_t Flags; uint16_t Duration;
  uint16_t Timeout; uint8_t Adv_Data_Len; uint8_t Scan_Rsp_Len; uint8_t data[0]; }\<close>,
  packed; \<open>data\<close> is a flexible array member at the end of the struct.
\<close>

definition off_Instance :: nat where "off_Instance = sizeof_HciHeader"
definition off_Flags :: nat where "off_Flags = off_Instance + 1"
definition off_Duration :: nat where "off_Duration = off_Flags + 4"
definition off_Timeout :: nat where "off_Timeout = off_Duration + 2"
definition off_Adv_Data_Len :: nat where "off_Adv_Data_Len = off_Timeout + 2"
definition off_Scan_Rsp_Len :: nat where "off_Scan_Rsp_Len = off_Adv_Data_Len + 1"
definition off_data :: nat where "off_data = off_Scan_Rsp_Len + 1"
definition sizeof_SRequest_adv :: nat where "sizeof_SRequest_adv = off_data"

text \<open>
  The buffer \<open>buf\<close> of \<open>cp_len\<close> bytes, filled through the struct pointer \<open>request\<close> and
  the two \<open>memcpy\<close> calls, as it stands when it is handed to \<open>sendCommand\<close>.
\<close>

definition setRawAdvertisingData_request :: "'t platform \<Rightarrow> Mgmt \<Rightarrow> RawAdvertisingData \<Rightarrow> bytes option" where
  "setRawAdvertisingData_request P m adv = do {
     let cp_len = sizeof_SRequest_adv + unat (advDataLen adv) + unat (rspDataLen adv);
     let buf = uninit (stack P) cp_len;
     buf \<leftarrow> store buf off_code (le16 (EAddAdvertisingCommand P));
     buf \<leftarrow> store buf off_controllerId (le16 (controllerIndex m));
     buf \<leftarrow> store buf off_dataSize (le16 (word_of_nat (cp_len - sizeof_HciHeader)));
     buf \<leftarrow> store buf off_Instance [1];
     buf \<leftarrow> store buf off_Flags (le32 0);
     buf \<leftarrow> store buf off_Timeout (le16 0);
     buf \<leftarrow> store buf off_Duration (le16 0);
     buf \<leftarrow> store buf off_Adv_Data_Len [advDataLen adv];
     buf \<leftarrow> store buf off_Scan_Rsp_Len [rspDataLen adv];
     buf \<leftarrow> (if advDataLen adv > 0
              then memcpy_at buf off_data (advData adv) (unat (advDataLen adv))
              else Some buf);
     buf \<leftarrow> (if rspDataLen adv > 0
              then memcpy_at buf (off_data + unat (advDataLen adv)) (rspData adv)
                     (unat (rspDataLen adv))
              else Some buf);
     Some buf
   }"

definition setRawAdvertisingData :: "'t platform \<Rightarrow> Mgmt \<Rightarrow> RawAdvertisingData \<Rightarrow> 't world \<Rightarrow> (bool \<times> 't world) option" where
  "setRawAdvertisingData P m adv w = do {
     (_, w1) \<leftarrow> setPowered P m False w;
     let w2 = usleep (200 * 1000) w1;
     request \<leftarrow> setRawAdvertisingData_request P m adv;
     let (ok, w3) = HciAdapter_sendCommand P request w2;
     if \<not> ok then Some (False, Logger_warn ''  + Failed to set discoverable'' w3)
     else Some (True, w3)
   }"

section \<open>Vocabulary of the properties\<close>

subsection \<open>The caller's advertising data\<close>

text \<open>
  A pointer is readable for \<open>n\<close> bytes when it is not null and its region has at least
  \<open>n\<close> bytes; \<open>pointee p n\<close> are those bytes. The caller of \<open>setRawAdvertisingData\<close>
  keeps its contract when each pointer whose length is not zero is readable for that
  length.
\<close>

definition readable :: "bytes option \<Rightarrow> nat \<Rightarrow> bool" where
  "readable p n = (case p of None \<Rightarrow> False | Some r \<Rightarrow> n \<le> length r)"

definition pointee :: "bytes option \<Rightarrow> nat \<Rightarrow> bytes" where
  "pointee p n = (case p of None \<Rightarrow> [] | Some r \<Rightarrow> take n r)"

definition caller_contract :: "RawAdvertisingData \<Rightarrow> bool" where
  "caller_contract adv =
     ((0 < advDataLen adv \<longrightarrow> readable (advData adv) (unat (advDataLen adv))) \<and>
      (0 < rspDataLen adv \<longrightarrow> readable (rspData adv) (unat (rspDataLen adv))))"

definition adv_bytes :: "RawAdvertisingData \<Rightarrow> bytes" where
  "adv_bytes adv = pointee (advData adv) (unat (advDataLen adv))"

definition rsp_bytes :: "RawAdvertisingData \<Rightarrow> bytes" where
  "rsp_bytes adv = pointee (rspData adv) (unat (rspDataLen adv))"

subsection \<open>Reading a packet back\<close>

text \<open>
  Modelled from the spec: the wire format of a command packet, read back. Every packet
  begins with the 6-byte header \<open>code\<close>, \<open>controllerId\<close>, \<open>dataSize\<close>, each a 16-bit
  little-endian integer, and the payload follows immediately.
\<close>

record HciHeader =
  code :: u16
  controllerId :: u16
  dataSize :: u16

definition rd16 :: "bytes \<Rightarrow> nat \<Rightarrow> u16" where
  "rd16 bs off = ucast (bs ! off) OR push_bit 8 (ucast (bs ! (off + 1)))"

definition parse_header :: "bytes \<Rightarrow> (HciHeader \<times> bytes) option" where
  "parse_header pkt =
     (if length pkt < sizeof_HciHeader then None
      else Some (\<lparr>code = rd16 pkt off_code,
                  controllerId = rd16 pkt off_controllerId,
                  dataSize = rd16 pkt off_dataSize\<rparr>,
                 drop sizeof_HciHeader pkt))"

text \<open>
  \<open>framed pkt c i n\<close>: the packet reads back as a header with code \<open>c\<close> and controller
  \<open>i\<close> whose \<open>dataSize\<close> is the length of the payload behind it, \<open>n\<close> bytes.
\<close>

definition framed :: "bytes \<Rightarrow> u16 \<Rightarrow> u16 \<Rightarrow> nat \<Rightarrow> bool" where
  "framed pkt c i n =
     (case parse_header pkt of
        None \<Rightarrow> False
      | Some (h, payload) \<Rightarrow>
          code h = c \<and> controllerId h = i \<and> unat (dataSize h) = length payload
          \<and> length payload = n)"

text \<open>
  Modelled from the spec: the decoder of a single-byte state command, a header whose
  \<open>dataSize\<close> is 1 followed by the state byte.
\<close>

definition decode_setState :: "bytes \<Rightarrow> (u16 \<times> u16 \<times> u8) option" where
  "decode_setState pkt =
     (case parse_header pkt of
        Some (h, [s]) \<Rightarrow> if dataSize h = 1 then Some (code h, controllerId h, s) else None
      | _ \<Rightarrow> None)"

text \<open>The C string held by a field: its bytes up to the first NUL.\<close>

definition cstring_of :: "bytes \<Rightarrow> bytes" where
  "cstring_of field = takeWhile (\<lambda>b. b \<noteq> 0) field"

text \<open>
  \<open>cfield n s\<close>: a field of \<open>n\<close> bytes holding at most \<open>n - 1\<close> bytes of \<open>s\<close> and zeros
  behind them.
\<close>

definition cfield :: "nat \<Rightarrow> bytes \<Rightarrow> bytes" where
  "cfield n s = take (n - 1) s @ replicate (n - min (n - 1) (length s)) 0"

subsection \<open>Reading a trace\<close>

fun commands :: "event list \<Rightarrow> bytes list" where
  "commands [] = []"
| "commands (Sent pkt # es) = pkt # commands es"
| "commands (e # es) = commands es"

fun warnings :: "event list \<Rightarrow> string list" where
  "warnings [] = []"
| "warnings (Logged Warn msg # es) = msg # warnings es"
| "warnings (e # es) = warnings es"

text \<open>What was done to the adapter and the clock: the trace without the log messages.\<close>

fun actions :: "event list \<Rightarrow> event list" where
  "actions [] = []"
| "actions (Logged l msg # es) = actions es"
| "actions (e # es) = e # actions es"

text \<open>\<open>mentions v msg\<close>: the text \<open>v\<close> occurs in the message.\<close>

fun mentions :: "string \<Rightarrow> string \<Rightarrow> bool" where
  "mentions v [] = (v = [])"
| "mentions v (c # cs) = (take (length v) (c # cs) = v \<or> mentions v cs)"

text \<open>
  \<open>one_command P w req msg res\<close>: the call built the request \<open>req\<close>, handed it to the
  transport once, and returned the transport's answer; the trace grew by that command and,
  when the answer was failure, by one warning \<open>msg\<close>.
\<close>

definition one_command ::
  "'t platform \<Rightarrow> 't world \<Rightarrow> bytes option \<Rightarrow> string \<Rightarrow> (bool \<times> 't world) option \<Rightarrow> bool" where
  "one_command P w req msg res =
     (case req of
        None \<Rightarrow> False
      | Some pkt \<Rightarrow>
          res = Some (fst (sendCommand P (hci w) pkt),
                      w\<lparr>hci := snd (sendCommand P (hci w) pkt),
                        trace := trace w @ Sent pkt #
                          (if fst (sendCommand P (hci w) pkt) then []
                           else [Logged Warn msg])\<rparr>))"

subsection \<open>An instance of the parameters\<close>

text \<open>
  A platform to run the model on: the command codes of the BlueZ management interface, a
  transport that counts the commands it has seen and rejects the first one, and a stack
  filled with \<open>0xAA\<close>.
\<close>

definition demo_platform :: "nat platform" where
  "demo_platform =
     \<lparr>sendCommand = (\<lambda>t pkt. (0 < t, Suc t)),
      kCommandCodeNames = (\<lambda>c. ''Command''),
      stack = (\<lambda>i. 0xAA),
      ESetPoweredCommand = 0x0005,
      ESetDiscoverableCommand = 0x0006,
      ESetConnectableCommand = 0x0007,
      ESetBondableCommand = 0x0009,
      ESetLowEnergyCommand = 0x000D,
      ESetLocalNameCommand = 0x000F,
      ESetAdvertisingCommand = 0x0029,
      ESetBREDRCommand = 0x002A,
      ESetSecureConnectionsCommand = 0x002D,
      EAddAdvertisingCommand = 0x003E\<rparr>"

definition demo_mgmt :: Mgmt where
  "demo_mgmt = \<lparr>controllerIndex = 0\<rparr>"

definition fresh_world :: "nat world" where
  "fresh_world = \<lparr>hci = 0, trace = []\<rparr>"

definition demo_adv :: RawAdvertisingData where
  "demo_adv =
     \<lparr>advDataLen = 10, rspDataLen = 5,
      advData = Some [1, 2, 3, 4, 5, 6, 7, 8, 9, 10],
      rspData = Some [0xA1, 0xA2, 0xA3, 0xA4, 0xA5]\<rparr>"

section \<open>The update queue\<close>

text \<open>
  \<^verbatim>\<open>Gobbledegook.h\<close> declares the queue operations; their bodies are not part of the
  sources at hand.

  Modelled from the spec: the update queue is a FIFO of entries \<open>(objectPath,
  interfaceName)\<close>, pushed at the front and popped at the back. \<open>ggkPopUpdateQueue\<close>
  answers 0 when the queue is empty, -1 when the caller's buffer of \<open>elementLen\<close> bytes is
  too small to hold the serialized entry, and 1 with the oldest entry otherwise; the
  entry is removed unless \<open>keep\<close> is set. The specification does not fix the serialized
  form, so the number of bytes an entry needs is the parameter \<open>need\<close>.
\<close>

type_synonym entry = "string \<times> string"
type_synonym update_queue = "entry list"

definition ggkPushUpdateQueue :: "update_queue \<Rightarrow> string \<Rightarrow> string \<Rightarrow> int \<times> update_queue" where
  "ggkPushUpdateQueue q pObjectPath pInterfaceName = (1, (pObjectPath, pInterfaceName) # q)"

definition ggkPopUpdateQueue ::
  "(entry \<Rightarrow> nat) \<Rightarrow> update_queue \<Rightarrow> int \<Rightarrow> bool \<Rightarrow> int \<times> entry option \<times> update_queue" where
  "ggkPopUpdateQueue need q elementLen keep =
     (if q = [] then (0, None, q)
      else if elementLen < int (need (last q)) then (- 1, None, q)
      else (1, Some (last q), if keep then q else butlast q))"

section \<open>Run state and health of the server\<close>

text \<open>The two enumerations of \<^verbatim>\<open>Gobbledegook.h\<close>, and the integer value of a run state.\<close>

datatype GGKServerRunState = EUninitialized | EInitializing | ERunning | EStopping | EStopped

datatype GGKServerHealth = EOk | EFailedInit | EFailedRun

fun run_state_value :: "GGKServerRunState \<Rightarrow> nat" where
  "run_state_value EUninitialized = 0"
| "run_state_value EInitializing = 1"
| "run_state_value ERunning = 2"
| "run_state_value EStopping = 3"
| "run_state_value EStopped = 4"

text \<open>
  The code that changes run state and health is not part of the sources at hand.

  Modelled from the spec: the triggers of the lifecycle. Initialization begins
  (\<open>Uninitialized\<close> to \<open>Initializing\<close>), initialization completes (\<open>Initializing\<close> to
  \<open>Running\<close>), shutdown is requested (to \<open>Stopping\<close>), the event loop exits (\<open>Stopping\<close>
  to \<open>Stopped\<close>). A trigger that would not move the state forward leaves it as it is. An
  unrecoverable error sets the health, once, to \<open>FailedInit\<close> before \<open>Running\<close> and to
  \<open>FailedRun\<close> otherwise, and the server proceeds toward \<open>Stopped\<close>.
\<close>

datatype trigger =
  InitializationBegins | InitializationCompletes | ShutdownRequested | EventLoopExits
  | UnrecoverableError

record server =
  runState :: GGKServerRunState
  health :: GGKServerHealth

definition toward_stopping :: "GGKServerRunState \<Rightarrow> GGKServerRunState" where
  "toward_stopping s = (if run_state_value s < run_state_value EStopping then EStopping else s)"

definition failure_health :: "GGKServerRunState \<Rightarrow> GGKServerHealth" where
  "failure_health s =
     (if run_state_value s < run_state_value ERunning then EFailedInit else EFailedRun)"

fun lifecycle_step :: "server \<Rightarrow> trigger \<Rightarrow> server" where
  "lifecycle_step sv InitializationBegins =
     (if runState sv = EUninitialized then sv\<lparr>runState := EInitializing\<rparr> else sv)"
| "lifecycle_step sv InitializationCompletes =
     (if runState sv = EInitializing then sv\<lparr>runState := ERunning\<rparr> else sv)"
| "lifecycle_step sv ShutdownRequested = sv\<lparr>runState := toward_stopping (runState sv)\<rparr>"
| "lifecycle_step sv EventLoopExits =
     (if runState sv = EStopping then sv\<lparr>runState := EStopped\<rparr> else sv)"
| "lifecycle_step sv UnrecoverableError =
     sv\<lparr>runState := toward_stopping (runState sv),
        health := (if health sv = EOk then failure_health (runState sv) else health sv)\<rparr>"

definition lifecycle_run :: "server \<Rightarrow> trigger list \<Rightarrow> server" where
  "lifecycle_run sv ts = foldl lifecycle_step sv ts"

section \<open>Facts about the model\<close>

lemma length_uninit [simp]: "length (uninit g n) = n"
  by (simp add: uninit_def)

lemma length_le16 [simp]: "length (le16 w) = 2"
  by (simp add: le16_def)

lemma length_le32 [simp]: "length (le32 w) = 4"
  by (simp add: le32_def)

lemmas layout_defs =
  sizeof_HciHeader_def off_code_def off_controllerId_def off_dataSize_def
  sizeof_name_def sizeof_shortName_def off_name_def off_shortName_def sizeof_SRequest_name_def
  off_disc_def off_timeout_def sizeof_SRequest_disc_def
  off_state_def sizeof_SRequest_state_def
  off_Instance_def off_Flags_def off_Duration_def off_Timeout_def off_Adv_Data_Len_def
  off_Scan_Rsp_Len_def off_data_def sizeof_SRequest_adv_def

lemma rd16_bytes: "ucast (ucast w :: u8) OR push_bit 8 (ucast (ucast (drop_bit 8 w) :: u8)) = (w :: u16)"
  by (rule bit_word_eqI) (auto simp: bit_simps)

lemma parse_header_le:
  "parse_header (le16 c @ le16 i @ le16 d @ payload) =
     Some (\<lparr>code = c, controllerId = i, dataSize = d\<rparr>, payload)"
  by (simp add: parse_header_def rd16_def le16_def layout_defs rd16_bytes)

lemma framed_le:
  "unat d = length payload \<Longrightarrow> framed (le16 c @ le16 i @ le16 d @ payload) c i (length payload)"
  by (simp add: framed_def parse_header_le)

subsection \<open>The request objects, byte by byte\<close>

lemma setState_request_bytes:
  "setState_request P c i s = Some (le16 c @ le16 i @ le16 1 @ [s])"
  by (simp add: setState_request_def store_def layout_defs)

lemma setDiscoverable_request_bytes:
  "setDiscoverable_request P m d t =
     Some (le16 (ESetDiscoverableCommand P) @ le16 (controllerIndex m) @ le16 3 @ [d] @ le16 t)"
  by (simp add: setDiscoverable_request_def store_def layout_defs)

lemma replicate_diff_Suc: "k \<le> n \<Longrightarrow> replicate (Suc n - k) x = x # replicate (n - k) x"
  by (simp add: Suc_diff_le)

lemma setName_request_bytes:
  "setName_request P m name shortName =
     Some (le16 (ESetLocalNameCommand P) @ le16 (controllerIndex m) @ le16 260
           @ cfield 249 (c_str (truncateName name))
           @ cfield 11 (c_str (truncateShortName shortName)))"
  using replicate_diff_Suc [of "length (c_str (truncateName name))" 248 "0::u8"]
    replicate_diff_Suc [of "length (c_str (truncateShortName shortName))" 10 "0::u8"]
  apply (simp add: setName_request_def store_def layout_defs Let_def memset_at_def snprintf_s_def cfield_def)
  apply (auto simp add: min_def take_Cons')
  done

lemma load_readable: "readable p n \<Longrightarrow> load p n = Some (pointee p n)"
  by (auto simp: readable_def load_def pointee_def split: option.splits)

lemma length_pointee: "readable p n \<Longrightarrow> length (pointee p n) = n"
  by (auto simp: readable_def pointee_def split: option.splits)

lemma pointee_0 [simp]: "pointee p 0 = []"
  by (simp add: pointee_def split: option.splits)

lemma length_adv_bytes: "caller_contract adv \<Longrightarrow> length (adv_bytes adv) = unat (advDataLen adv)"
  by (cases "advDataLen adv = 0")
    (auto simp: caller_contract_def adv_bytes_def length_pointee word_greater_zero_iff)

lemma length_rsp_bytes: "caller_contract adv \<Longrightarrow> length (rsp_bytes adv) = unat (rspDataLen adv)"
  by (cases "rspDataLen adv = 0")
    (auto simp: caller_contract_def rsp_bytes_def length_pointee word_greater_zero_iff)

lemma setRawAdvertisingData_request_bytes:
  assumes "caller_contract adv"
  shows "setRawAdvertisingData_request P m adv =
           Some (le16 (EAddAdvertisingCommand P) @ le16 (controllerIndex m)
                 @ le16 (word_of_nat (11 + unat (advDataLen adv) + unat (rspDataLen adv)))
                 @ [1] @ le32 0 @ le16 0 @ le16 0 @ [advDataLen adv, rspDataLen adv]
                 @ adv_bytes adv @ rsp_bytes adv)"
proof -
  have la: "length (adv_bytes adv) = unat (advDataLen adv)"
    and lr: "length (rsp_bytes adv) = unat (rspDataLen adv)"
    using assms by (simp_all add: length_adv_bytes length_rsp_bytes)
  show ?thesis
    using assms la lr
    apply (simp add: setRawAdvertisingData_request_def store_def layout_defs Let_def)
    apply (auto simp: memcpy_at_def load_readable store_def caller_contract_def adv_bytes_def
        rsp_bytes_def word_greater_zero_iff take_Cons' drop_Cons' add.assoc)
    done
qed

lemma unat_adv_dataSize:
  "unat (word_of_nat (11 + unat (a :: u8) + unat (r :: u8)) :: u16) = 11 + unat a + unat r"
proof -
  have "unat a < 256" "unat r < 256"
    using unsigned_less [of a, where ?'a = nat] unsigned_less [of r, where ?'a = nat] by simp_all
  then have "11 + unat a + unat r < 2 ^ LENGTH(16)" by simp
  then show ?thesis by (subst unat_of_nat) (rule mod_less)
qed

lemma commands_append [simp]: "commands (xs @ ys) = commands xs @ commands ys"
  by (induction xs rule: commands.induct) simp_all

lemma warnings_append [simp]: "warnings (xs @ ys) = warnings xs @ warnings ys"
  by (induction xs rule: warnings.induct) simp_all

lemma one_commandI:
  assumes "req = Some pkt"
    and "res = (let (ok, w1) = HciAdapter_sendCommand P pkt w
                in if \<not> ok then Some (False, Logger_warn msg w1) else Some (True, w1))"
  shows "one_command P w req msg res"
  using assms
  by (auto simp: one_command_def HciAdapter_sendCommand_def Logger_warn_def Let_def
      split: prod.splits)

lemma setState_one_command:
  "one_command P w (setState_request P c i s) (setState_message P c s) (setState P c i s w)"
  by (rule one_commandI [OF setState_request_bytes])
    (simp add: setState_def setState_request_bytes)

lemma setName_one_command:
  "one_command P w (setName_request P m n s) ''  + Failed to set name'' (setName P m n s w)"
  by (rule one_commandI [OF setName_request_bytes])
    (simp add: setName_def setName_request_bytes)

lemma setDiscoverable_one_command:
  "one_command P w (setDiscoverable_request P m d t) ''  + Failed to set discoverable''
     (setDiscoverable P m d t w)"
  by (rule one_commandI [OF setDiscoverable_request_bytes])
    (simp add: setDiscoverable_def setDiscoverable_request_bytes)

lemma one_command_commands:
  "one_command P w (Some pkt) msg res \<Longrightarrow>
   \<exists>ok w'. res = Some (ok, w') \<and> commands (trace w') = commands (trace w) @ [pkt]"
  by (auto simp: one_command_def)

lemma decode_setState_bytes:
  "decode_setState (le16 c @ le16 i @ le16 1 @ [s]) = Some (c, i, s)"
  by (simp add: decode_setState_def parse_header_le)

lemma setState_decodes:
  "\<exists>ok w' pkt. setState P c i s w = Some (ok, w')
      \<and> commands (trace w') = commands (trace w) @ [pkt]
      \<and> decode_setState pkt = Some (c, i, s)"
  using one_command_commands [of P w "le16 c @ le16 i @ le16 1 @ [s]" "setState_message P c s"
      "setState P c i s w"]
    setState_one_command [of P w c i s]
  by (auto simp: setState_request_bytes decode_setState_bytes)

lemma actions_append [simp]: "actions (xs @ ys) = actions xs @ actions ys"
  by (induction xs rule: actions.induct) simp_all

lemma length_cfield: "0 < n \<Longrightarrow> length (cfield n s) = n"
  by (simp add: cfield_def)

lemma framed_packet:
  assumes "pkt = le16 c @ le16 i @ le16 d @ payload" and "unat d = n" and "length payload = n"
  shows "framed pkt c i n \<and> length pkt = 6 + n \<and> take 6 pkt = le16 c @ le16 i @ le16 d"
  using assms framed_le [of d payload c i] by simp

lemma mentions_prefix: "mentions v (v @ ys)"
proof (cases "v @ ys")
  case Nil
  then show ?thesis by simp
next
  case (Cons a l)
  have "take (length v) (v @ ys) = v" by simp
  then have "mentions v (a # l)" by (simp add: Cons)
  then show ?thesis by (simp only: Cons)
qed

lemma mentions_append: "mentions v (xs @ v @ ys)"
  by (induction xs) (simp_all add: mentions_prefix)

lemma setState_message_mentions:
  "mentions (kCommandCodeNames P c) (setState_message P c s)
   \<and> mentions (decimal (unat s)) (setState_message P c s)"
proof
  show "mentions (kCommandCodeNames P c) (setState_message P c s)"
    unfolding setState_message_def by (rule mentions_append)
  have "setState_message P c s
      = (''  + Failed to set '' @ kCommandCodeNames P c @ '' state to: '') @ decimal (unat s) @ []"
    by (simp add: setState_message_def)
  then show "mentions (decimal (unat s)) (setState_message P c s)"
    by (simp only: mentions_append)
qed

text \<open>What a call that is \<open>one_command\<close> did, read off the result.\<close>
lemma one_command_outcome:
  assumes "one_command P w req msg res"
  shows "\<exists>pkt ok w'. req = Some pkt \<and> res = Some (ok, w')
           \<and> ok = fst (sendCommand P (hci w) pkt)
           \<and> hci w' = snd (sendCommand P (hci w) pkt)
           \<and> commands (trace w') = commands (trace w) @ [pkt]
           \<and> warnings (trace w') = warnings (trace w) @ (if ok then [] else [msg])"
  using assms by (auto simp: one_command_def split: option.splits)

text \<open>The whole run of \<open>setRawAdvertisingData\<close>.\<close>
lemma setRawAdvertisingData_run:
  assumes req: "setRawAdvertisingData_request P m adv = Some p2"
    and p1: "p1 = le16 (ESetPoweredCommand P) @ le16 (controllerIndex m) @ le16 1 @ [0]"
    and r1: "sendCommand P (hci w) p1 = (ok1, t1)"
    and r2: "sendCommand P t1 p2 = (ok2, t2)"
  shows "setRawAdvertisingData P m adv w =
           Some (ok2,
                 w\<lparr>hci := t2,
                   trace := trace w @ [Sent p1]
                     @ (if ok1 then [] else [Logged Warn (setState_message P (ESetPoweredCommand P) 0)])
                     @ [Slept (200 * 1000), Sent p2]
                     @ (if ok2 then [] else [Logged Warn ''  + Failed to set discoverable''])\<rparr>)"
  using req r1 r2 unfolding p1
  by (simp add: setRawAdvertisingData_def setPowered_def setState_def setState_request_bytes
      HciAdapter_sendCommand_def Logger_warn_def usleep_def)

lemma demo_adv_bytes:
  "adv_bytes demo_adv = [1, 2, 3, 4, 5, 6, 7, 8, 9, 10]"
  "rsp_bytes demo_adv = [0xA1, 0xA2, 0xA3, 0xA4, 0xA5]"
  "advDataLen demo_adv = 10" "rspDataLen demo_adv = 5"
  by (simp_all add: adv_bytes_def rsp_bytes_def pointee_def demo_adv_def)

lemma setRawAdvertisingData_request_empty:
  assumes "advDataLen adv = 0" and "rspDataLen adv = 0"
  shows "setRawAdvertisingData_request P m (adv\<lparr>advData := p, rspData := q\<rparr>)
           = setRawAdvertisingData_request P m adv"
    and "setRawAdvertisingData_request P m adv \<noteq> None"
  using assms
  by (simp_all add: setRawAdvertisingData_request_def store_def layout_defs Let_def)

lemma setRawAdvertisingData_Some:
  "setRawAdvertisingData_request P m adv \<noteq> None \<Longrightarrow> setRawAdvertisingData P m adv w \<noteq> None"
proof -
  assume "setRawAdvertisingData_request P m adv \<noteq> None"
  then obtain p2 where req: "setRawAdvertisingData_request P m adv = Some p2"
    by blast
  let ?p1 = "le16 (ESetPoweredCommand P) @ le16 (controllerIndex m) @ le16 1 @ [0]"
  obtain ok1 t1 where r1: "sendCommand P (hci w) ?p1 = (ok1, t1)"
    by (cases "sendCommand P (hci w) ?p1")
  obtain ok2 t2 where r2: "sendCommand P t1 p2 = (ok2, t2)"
    by (cases "sendCommand P t1 p2")
  show ?thesis
    by (simp add: setRawAdvertisingData_run [OF req refl r1 r2])
qed

lemma of_char_u8_eq_0: "(of_char c :: u8) = 0 \<longleftrightarrow> c = CHR 0x00"
proof
  assume z: "(of_char c :: u8) = 0"
  have lt: "(of_char c :: nat) < 256"
    using of_char_mod_256 [of c, where ?'a = nat] by (metis mod_less_divisor zero_less_numeral)
  have "(of_nat (of_char c :: nat) :: u8) = 0"
    using z by (simp only: of_nat_of_char)
  then have "2 ^ LENGTH(8) dvd (of_char c :: nat)"
    by (simp only: word_of_nat_eq_0_iff)
  then have "256 dvd (of_char c :: nat)"
    by simp
  with lt have "(of_char c :: nat) = 0"
    using nat_dvd_not_less [of "of_char c" 256] by blast
  then have "(of_char c :: nat) = of_char (CHR 0x00)"
    by simp
  then show "c = CHR 0x00"
    by (simp only: of_char_eq_iff)
next
  assume "c = CHR 0x00"
  then show "(of_char c :: u8) = 0" by simp
qed

lemma c_str_no_nul: "0 \<notin> set (c_str s)"
  by (auto simp: c_str_def dest: set_takeWhileD)

lemma length_c_str: "length (c_str s) \<le> length s"
  using length_takeWhile_le [of "\<lambda>b. b \<noteq> 0" "map of_char s"] by (simp add: c_str_def)

lemma c_str_nul_free: "CHR 0x00 \<notin> set s \<Longrightarrow> c_str s = map of_char s"
  unfolding c_str_def by (rule takeWhile_eq_all_conv [THEN iffD2]) (auto simp: of_char_u8_eq_0)

lemma truncateName_take: "truncateName name = take 248 name"
  by (simp add: truncateName_def kMaxAdvertisingNameLength_def)

lemma truncateShortName_take: "truncateShortName name = take 10 name"
  by (simp add: truncateShortName_def kMaxAdvertisingShortNameLength_def)

lemma cstring_of_padded: "0 \<notin> set s \<Longrightarrow> 0 < k \<Longrightarrow> cstring_of (s @ replicate k 0) = s"
proof -
  assume nz: "0 \<notin> set s" and k: "0 < k"
  from k obtain j where j: "k = Suc j" by (cases k) auto
  have "\<And>x. x \<in> set s \<Longrightarrow> x \<noteq> 0" using nz by auto
  then have "takeWhile (\<lambda>b. b \<noteq> 0) (s @ replicate k 0)
               = s @ takeWhile (\<lambda>b. b \<noteq> 0) (replicate k 0)"
    by (rule takeWhile_append2)
  then show ?thesis by (simp add: cstring_of_def j)
qed

lemma cfield_fits: "length s < n \<Longrightarrow> cfield n s = s @ replicate (n - length s) 0"
  by (auto simp: cfield_def min_def)

lemma cfield_c_str:
  assumes "0 < n"
  shows "length (cfield n (c_str (take (n - 1) s))) = n"
    and "last (cfield n (c_str (take (n - 1) s))) = 0"
    and "cstring_of (cfield n (c_str (take (n - 1) s))) = c_str (take (n - 1) s)"
    and "length (c_str (take (n - 1) s)) \<le> n - 1"
    and "cfield n (c_str (take (n - 1) s))
           = c_str (take (n - 1) s) @ replicate (n - length (c_str (take (n - 1) s))) 0"
proof -
  let ?c = "c_str (take (n - 1) s)"
  have le: "length ?c \<le> n - 1"
    using length_c_str [of "take (n - 1) s"] by simp
  with assms have lt: "length ?c < n" by simp
  have f: "cfield n ?c = ?c @ replicate (n - length ?c) 0"
    by (rule cfield_fits [OF lt])
  show "length (cfield n ?c) = n" unfolding f using lt by simp
  show "last (cfield n ?c) = 0" unfolding f using lt by simp
  show "cstring_of (cfield n ?c) = ?c"
    unfolding f using lt by (intro cstring_of_padded c_str_no_nul) simp
  show "length ?c \<le> n - 1" by (rule le)
  show "cfield n ?c = ?c @ replicate (n - length ?c) 0" by (rule f)
qed

lemma name_fields_of_request:
  "name_field (le16 c @ le16 i @ le16 d @ cfield 249 a @ cfield 11 b) = cfield 249 a"
  "shortName_field (le16 c @ le16 i @ le16 d @ cfield 249 a @ cfield 11 b) = cfield 11 b"
  by (simp_all add: name_field_def shortName_field_def layout_defs length_cfield)

lemma snprintf_s_frame:
  assumes "snprintf_s obj off n s = Some obj'"
  shows "length obj' = length obj \<and> take off obj' = take off obj
         \<and> drop (off + n) obj' = drop (off + n) obj"
proof (cases "n = 0")
  case True
  with assms show ?thesis by (simp add: snprintf_s_def)
next
  case False
  define bs where "bs = take (n - 1) s @ [0::u8]"
  define rest where "rest = drop (off + length bs) obj"
  from False have lb: "length bs \<le> n" by (simp add: bs_def)
  from assms False have b: "off + length bs \<le> length obj"
    and o: "obj' = take off obj @ bs @ rest"
    unfolding bs_def rest_def by (auto simp: snprintf_s_def store_def split: if_splits)
  from b have lr: "length rest = length obj - (off + length bs)"
    by (simp add: rest_def)
  from b have l: "length obj' = length obj" unfolding o by (simp add: lr)
  from b have t: "take off obj' = take off obj" unfolding o by simp
  from b have "drop (off + n) obj' = drop n (bs @ rest)" unfolding o by simp
  also have "\<dots> = drop (n - length bs) rest" using lb by simp
  also have "\<dots> = drop (off + n) obj"
    unfolding rest_def drop_drop using lb by (simp add: add.commute)
  finally show ?thesis using l t by simp
qed

lemma run_state_value_step:
  "run_state_value (runState sv) \<le> run_state_value (runState (lifecycle_step sv t))"
  by (cases t; cases "runState sv") (simp_all add: toward_stopping_def)

lemma health_step:
  "health sv \<noteq> EOk \<Longrightarrow> health (lifecycle_step sv t) = health sv"
  by (cases t) simp_all

lemma run_state_value_run:
  "run_state_value (runState sv) \<le> run_state_value (runState (lifecycle_run sv ts))"
  unfolding lifecycle_run_def
proof (induction ts arbitrary: sv)
  case Nil
  show ?case by simp
next
  case (Cons t ts)
  have "run_state_value (runState sv) \<le> run_state_value (runState (lifecycle_step sv t))"
    by (rule run_state_value_step)
  also have "\<dots> \<le> run_state_value (runState (foldl lifecycle_step (lifecycle_step sv t) ts))"
    by (rule Cons.IH)
  finally show ?case by simp
qed

lemma health_run:
  "health sv \<noteq> EOk \<Longrightarrow> health (lifecycle_run sv ts) = health sv"
  unfolding lifecycle_run_def
  by (induction ts arbitrary: sv) (simp_all add: health_step)

lemma run_state_value_max: "run_state_value s \<le> 4"
  by (cases s) simp_all

lemma run_state_value_Stopped: "run_state_value s = 4 \<longleftrightarrow> s = EStopped"
  by (cases s) simp_all

section \<open>The properties\<close>

text \<open>
  C1. When the caller keeps its contract, \<open>setRawAdvertisingData\<close> builds one buffer of
  exactly 6 + 11 + \<open>advDataLen\<close> + \<open>rspDataLen\<close> bytes: the header with \<open>dataSize\<close> =
  11 + \<open>advDataLen\<close> + \<open>rspDataLen\<close>, the fixed fields with \<open>Adv_Data_Len\<close> =
  \<open>advDataLen\<close> and \<open>Scan_Rsp_Len\<close> = \<open>rspDataLen\<close>, and behind them the advertising
  bytes immediately followed by the scan-response bytes. Nothing of the uninitialised
  buffer is left in it.
\<close>
theorem setRawAdvertisingData_buffer:
  assumes "caller_contract adv"
  shows "\<exists>buf.
      setRawAdvertisingData_request P m adv = Some buf
    \<and> length buf = 6 + 11 + unat (advDataLen adv) + unat (rspDataLen adv)
    \<and> buf = le16 (EAddAdvertisingCommand P) @ le16 (controllerIndex m)
            @ le16 (word_of_nat (11 + unat (advDataLen adv) + unat (rspDataLen adv)))
            @ [1] @ le32 0 @ le16 0 @ le16 0 @ [advDataLen adv, rspDataLen adv]
            @ adv_bytes adv @ rsp_bytes adv
    \<and> framed buf (EAddAdvertisingCommand P) (controllerIndex m)
         (11 + unat (advDataLen adv) + unat (rspDataLen adv))
    \<and> buf ! off_Adv_Data_Len = advDataLen adv
    \<and> buf ! off_Scan_Rsp_Len = rspDataLen adv
    \<and> drop off_data buf = adv_bytes adv @ rsp_bytes adv
    \<and> length (adv_bytes adv) = unat (advDataLen adv)
    \<and> length (rsp_bytes adv) = unat (rspDataLen adv)"
proof -
  let ?a = "unat (advDataLen adv)" and ?r = "unat (rspDataLen adv)"
  let ?fixed = "[1] @ le32 0 @ le16 0 @ le16 0 @ [advDataLen adv, rspDataLen adv]"
  let ?payload = "?fixed @ adv_bytes adv @ rsp_bytes adv"
  let ?ds = "word_of_nat (11 + ?a + ?r) :: u16"
  let ?buf = "le16 (EAddAdvertisingCommand P) @ le16 (controllerIndex m) @ le16 ?ds @ ?payload"
  have la: "length (adv_bytes adv) = ?a" and lr: "length (rsp_bytes adv) = ?r"
    using assms by (simp_all add: length_adv_bytes length_rsp_bytes)
  have lp: "length ?payload = 11 + ?a + ?r"
    by (simp add: la lr)
  have req: "setRawAdvertisingData_request P m adv = Some ?buf"
    using setRawAdvertisingData_request_bytes [OF assms, of P m] by simp
  have fr: "framed ?buf (EAddAdvertisingCommand P) (controllerIndex m) (length ?payload)"
    by (rule framed_le) (simp only: lp unat_adv_dataSize)
  have len: "length ?buf = 6 + 11 + ?a + ?r"
    by (simp add: la lr)
  have n15: "?buf ! off_Adv_Data_Len = advDataLen adv"
    by (simp add: layout_defs le16_def le32_def)
  have n16: "?buf ! off_Scan_Rsp_Len = rspDataLen adv"
    by (simp add: layout_defs le16_def le32_def)
  have dr: "drop off_data ?buf = adv_bytes adv @ rsp_bytes adv"
    by (simp add: layout_defs)
  from req len fr n15 n16 dr la lr show ?thesis
    unfolding lp by (intro exI [of _ ?buf]) simp
qed

text \<open>
  With 10 advertising bytes and 5 scan-response bytes the payload has 9 + 2 + 15 = 26
  bytes and the 15 data bytes are the advertising bytes followed by the scan-response
  bytes.
\<close>
theorem setRawAdvertisingData_buffer_witness:
  "caller_contract demo_adv \<and>
   (\<exists>buf. setRawAdvertisingData_request demo_platform demo_mgmt demo_adv = Some buf
      \<and> length buf = 6 + (9 + 2 + 15)
      \<and> framed buf 0x003E 0 26
      \<and> drop off_data buf
          = [1, 2, 3, 4, 5, 6, 7, 8, 9, 10] @ [0xA1, 0xA2, 0xA3, 0xA4, 0xA5])"
proof -
  have h: "caller_contract demo_adv"
    by (simp add: caller_contract_def demo_adv_def readable_def)
  have a: "adv_bytes demo_adv = [1, 2, 3, 4, 5, 6, 7, 8, 9, 10]"
    by (simp add: adv_bytes_def pointee_def demo_adv_def)
  have r: "rsp_bytes demo_adv = [0xA1, 0xA2, 0xA3, 0xA4, 0xA5]"
    by (simp add: rsp_bytes_def pointee_def demo_adv_def)
  have l: "advDataLen demo_adv = 10" "rspDataLen demo_adv = 5"
    by (simp_all add: demo_adv_def)
  have p: "EAddAdvertisingCommand demo_platform = 0x003E" "controllerIndex demo_mgmt = 0"
    by (simp_all add: demo_platform_def demo_mgmt_def)
  from setRawAdvertisingData_buffer [OF h, of demo_platform demo_mgmt]
  obtain buf where
    "setRawAdvertisingData_request demo_platform demo_mgmt demo_adv = Some buf"
    "length buf = 6 + 11 + unat (advDataLen demo_adv) + unat (rspDataLen demo_adv)"
    "framed buf (EAddAdvertisingCommand demo_platform) (controllerIndex demo_mgmt)
       (11 + unat (advDataLen demo_adv) + unat (rspDataLen demo_adv))"
    "drop off_data buf = adv_bytes demo_adv @ rsp_bytes demo_adv"
    by blast
  then show ?thesis
    using h by (simp add: a r l p)
qed

text \<open>
  C2. \<open>setDiscoverable(0x02, 30)\<close> builds, and hands to the transport, the packet made of
  the 6-byte header with the set-discoverable command code, the controller index and
  \<open>dataSize\<close> = 3, followed by exactly the three payload bytes \<open>0x02, 0x1E, 0x00\<close>: the
  mode, then the timeout with its low byte first.
\<close>
theorem setDiscoverable_limited_30:
  "setDiscoverable_request P m 0x02 30
     = Some (le16 (ESetDiscoverableCommand P) @ le16 (controllerIndex m) @ [3, 0]
             @ [0x02, 0x1E, 0x00])
   \<and> parse_header (le16 (ESetDiscoverableCommand P) @ le16 (controllerIndex m) @ [3, 0]
                    @ [0x02, 0x1E, 0x00])
     = Some (\<lparr>code = ESetDiscoverableCommand P, controllerId = controllerIndex m,
               dataSize = 3\<rparr>, [0x02, 0x1E, 0x00])
   \<and> (\<exists>ok w'. setDiscoverable P m 0x02 30 w = Some (ok, w')
        \<and> commands (trace w')
          = commands (trace w) @ [le16 (ESetDiscoverableCommand P) @ le16 (controllerIndex m)
                                   @ [3, 0] @ [0x02, 0x1E, 0x00]])"
proof -
  let ?pkt = "le16 (ESetDiscoverableCommand P) @ le16 (controllerIndex m) @ [3, 0]
                @ [0x02, 0x1E, 0x00]"
  have e: "le16 3 @ [2] @ le16 30 = [3, 0] @ [0x02, 0x1E, 0x00]"
    by (simp add: le16_def)
  have req: "setDiscoverable_request P m 0x02 30 = Some ?pkt"
    unfolding setDiscoverable_request_bytes e ..
  have "[3, 0] = le16 3" by (simp add: le16_def)
  then have ph: "parse_header ?pkt
      = Some (\<lparr>code = ESetDiscoverableCommand P, controllerId = controllerIndex m,
                dataSize = 3\<rparr>, [0x02, 0x1E, 0x00])"
    using parse_header_le [of "ESetDiscoverableCommand P" "controllerIndex m" 3 "[0x02, 0x1E, 0x00]"]
    by simp
  have "one_command P w (Some ?pkt) ''  + Failed to set discoverable''
          (setDiscoverable P m 0x02 30 w)"
    using setDiscoverable_one_command [of P w m "0x02" 30] by (simp only: req)
  from one_command_commands [OF this] req ph show ?thesis by simp
qed

text \<open>
  C3, amended. For every name and short name \<open>setName\<close> builds its request with every
  write inside it. The name field has 249 bytes, ends in NUL, and holds as its C string
  the first 248 bytes of the name cut at the name's first NUL byte, at most 248 bytes,
  with zeros in the rest of the field. A name without a NUL byte of at most 248 bytes is
  copied exactly, and a longer one is truncated to exactly its first 248 bytes. The same
  holds for the short name with a field of 11 bytes and a maximum of 10. What
  \<open>snprintf\<close> writes lies inside the \<open>n\<close> bytes it is given: the bytes of the object
  before and behind them are left as they were.
\<close>
theorem setName_fields:
  "\<exists>req. setName_request P m name shortName = Some req
     \<and> length req = 6 + 249 + 11
     \<and> length (name_field req) = 249
     \<and> last (name_field req) = 0
     \<and> cstring_of (name_field req) = c_str (take 248 name)
     \<and> length (cstring_of (name_field req)) \<le> 248
     \<and> name_field req
         = cstring_of (name_field req) @ replicate (249 - length (cstring_of (name_field req))) 0
     \<and> (CHR 0x00 \<notin> set name \<and> length name \<le> kMaxAdvertisingNameLength
          \<longrightarrow> cstring_of (name_field req) = map of_char name)
     \<and> (CHR 0x00 \<notin> set name \<and> kMaxAdvertisingNameLength < length name
          \<longrightarrow> cstring_of (name_field req) = map of_char (take kMaxAdvertisingNameLength name)
              \<and> length (cstring_of (name_field req)) = kMaxAdvertisingNameLength)
     \<and> length (shortName_field req) = 11
     \<and> last (shortName_field req) = 0
     \<and> cstring_of (shortName_field req) = c_str (take 10 shortName)
     \<and> length (cstring_of (shortName_field req)) \<le> 10
     \<and> shortName_field req
         = cstring_of (shortName_field req)
           @ replicate (11 - length (cstring_of (shortName_field req))) 0
     \<and> (CHR 0x00 \<notin> set shortName \<and> length shortName \<le> kMaxAdvertisingShortNameLength
          \<longrightarrow> cstring_of (shortName_field req) = map of_char shortName)
     \<and> (CHR 0x00 \<notin> set shortName \<and> kMaxAdvertisingShortNameLength < length shortName
          \<longrightarrow> cstring_of (shortName_field req)
                = map of_char (take kMaxAdvertisingShortNameLength shortName)
              \<and> length (cstring_of (shortName_field req)) = kMaxAdvertisingShortNameLength)
     \<and> (\<forall>obj obj' off n s. snprintf_s obj off n s = Some obj'
          \<longrightarrow> length obj' = length obj \<and> take off obj' = take off obj
              \<and> drop (off + n) obj' = drop (off + n) obj)"
proof -
  let ?cn = "c_str (take 248 name)" and ?cs = "c_str (take 10 shortName)"
  let ?fn = "cfield 249 ?cn" and ?fs = "cfield 11 ?cs"
  let ?req = "le16 (ESetLocalNameCommand P) @ le16 (controllerIndex m) @ le16 260 @ ?fn @ ?fs"
  have req: "setName_request P m name shortName = Some ?req"
    by (simp add: setName_request_bytes truncateName_take truncateShortName_take)
  have nf: "name_field ?req = ?fn" and sf: "shortName_field ?req = ?fs"
    by (rule name_fields_of_request)+
  note n = cfield_c_str [of 249 name, simplified]
  note s = cfield_c_str [of 11 shortName, simplified]
  have len: "length ?req = 6 + 249 + 11"
    by (simp add: n(1) s(1))
  have n_exact: "cstring_of ?fn = map of_char name"
    if "CHR 0x00 \<notin> set name \<and> length name \<le> kMaxAdvertisingNameLength"
  proof -
    from that have "take 248 name = name" by (simp add: kMaxAdvertisingNameLength_def)
    with that have "?cn = map of_char name" by (simp add: c_str_nul_free)
    with n(3) show ?thesis by (simp only:)
  qed
  have n_trunc: "cstring_of ?fn = map of_char (take kMaxAdvertisingNameLength name)
      \<and> length (cstring_of ?fn) = kMaxAdvertisingNameLength"
    if "CHR 0x00 \<notin> set name \<and> kMaxAdvertisingNameLength < length name"
  proof -
    from that have "CHR 0x00 \<notin> set (take 248 name)" by (auto dest: in_set_takeD)
    then have "?cn = map of_char (take 248 name)" by (rule c_str_nul_free)
    with n(3) have "cstring_of ?fn = map of_char (take 248 name)" by (simp only:)
    with that show ?thesis by (simp add: kMaxAdvertisingNameLength_def)
  qed
  have s_exact: "cstring_of ?fs = map of_char shortName"
    if "CHR 0x00 \<notin> set shortName \<and> length shortName \<le> kMaxAdvertisingShortNameLength"
  proof -
    from that have "take 10 shortName = shortName"
      by (simp add: kMaxAdvertisingShortNameLength_def)
    with that have "?cs = map of_char shortName" by (simp add: c_str_nul_free)
    with s(3) show ?thesis by (simp only:)
  qed
  have s_trunc: "cstring_of ?fs = map of_char (take kMaxAdvertisingShortNameLength shortName)
      \<and> length (cstring_of ?fs) = kMaxAdvertisingShortNameLength"
    if "CHR 0x00 \<notin> set shortName \<and> kMaxAdvertisingShortNameLength < length shortName"
  proof -
    from that have "CHR 0x00 \<notin> set (take 10 shortName)" by (auto dest: in_set_takeD)
    then have "?cs = map of_char (take 10 shortName)" by (rule c_str_nul_free)
    with s(3) have "cstring_of ?fs = map of_char (take 10 shortName)" by (simp only:)
    with that show ?thesis by (simp add: kMaxAdvertisingShortNameLength_def)
  qed
  have pad_n: "?fn = cstring_of ?fn @ replicate (249 - length (cstring_of ?fn)) 0"
    unfolding n(3) by (rule n(5))
  have pad_s: "?fs = cstring_of ?fs @ replicate (11 - length (cstring_of ?fs)) 0"
    unfolding s(3) by (rule s(5))
  have ln: "length (cstring_of ?fn) \<le> 248" unfolding n(3) by (rule n(4))
  have ls: "length (cstring_of ?fs) \<le> 10" unfolding s(3) by (rule s(4))
  show ?thesis
    apply (rule exI [of _ ?req])
    unfolding nf sf
    apply (intro conjI impI allI)
                      apply (rule req)
                      apply (rule len)
                      apply (rule n(1))
                      apply (rule n(2))
                      apply (rule n(3))
                      apply (rule ln)
                      apply (rule pad_n)
                      apply (erule n_exact)
                      apply (erule n_trunc [THEN conjunct1])
                      apply (erule n_trunc [THEN conjunct2])
                      apply (rule s(1))
                      apply (rule s(2))
                      apply (rule s(3))
                      apply (rule ls)
                      apply (rule pad_s)
                      apply (erule s_exact)
                      apply (erule s_trunc [THEN conjunct1])
                      apply (erule s_trunc [THEN conjunct2])
                      apply (erule snprintf_s_frame [THEN conjunct1])
                      apply (erule snprintf_s_frame [THEN conjunct2, THEN conjunct1])
                      apply (erule snprintf_s_frame [THEN conjunct2, THEN conjunct2])
    done
qed

text \<open>
  A name of 3 bytes is copied exactly; a short name of 12 bytes is truncated to its first
  10. Printing a string of 4 bytes into 3 bytes in the middle of an object of 5 changes
  those 3 bytes only.
\<close>
theorem setName_fields_witness:
  "CHR 0x00 \<notin> set ''Gobbledegook''
   \<and> length ''ggk'' \<le> kMaxAdvertisingNameLength
   \<and> kMaxAdvertisingShortNameLength < length ''Gobbledegook''
   \<and> (\<exists>req. setName_request demo_platform demo_mgmt ''ggk'' ''Gobbledegook'' = Some req
         \<and> cstring_of (name_field req) = map of_char ''ggk''
         \<and> cstring_of (shortName_field req) = map of_char ''Gobbledego'')
   \<and> snprintf_s [9, 9, 9, 9, 9] 1 3 [7, 7, 7, 7] = Some [9, 7, 7, 0, 9]
   \<and> take 1 [9, 7, 7, 0, 9 :: u8] = take 1 [9, 9, 9, 9, 9]
   \<and> drop (1 + 3) [9, 7, 7, 0, 9 :: u8] = drop (1 + 3) [9, 9, 9, 9, 9]"
proof -
  have e: "snprintf_s [9, 9, 9, 9, 9] 1 3 [7, 7, 7, 7] = Some [9, 7, 7, 0, 9]"
    by (simp add: snprintf_s_def store_def)
  from setName_fields [of demo_platform demo_mgmt "''ggk''" "''Gobbledegook''"]
  have "\<forall>obj obj' off n s. snprintf_s obj off n s = Some obj'
          \<longrightarrow> length obj' = length obj \<and> take off obj' = take off obj
              \<and> drop (off + n) obj' = drop (off + n) obj"
    by blast
  with e have fr: "take 1 [9, 7, 7, 0, 9 :: u8] = take 1 [9, 9, 9, 9, 9]
      \<and> drop (1 + 3) [9, 7, 7, 0, 9 :: u8] = drop (1 + 3) [9, 9, 9, 9, 9]"
    by blast
  have h: "CHR 0x00 \<notin> set ''ggk'' \<and> length ''ggk'' \<le> kMaxAdvertisingNameLength"
    "CHR 0x00 \<notin> set ''Gobbledegook''
     \<and> kMaxAdvertisingShortNameLength < length ''Gobbledegook''"
    by (simp_all add: kMaxAdvertisingNameLength_def kMaxAdvertisingShortNameLength_def)
  from setName_fields [of demo_platform demo_mgmt "''ggk''" "''Gobbledegook''"]
  obtain req where "setName_request demo_platform demo_mgmt ''ggk'' ''Gobbledegook'' = Some req"
    and "CHR 0x00 \<notin> set ''ggk'' \<and> length ''ggk'' \<le> kMaxAdvertisingNameLength
          \<longrightarrow> cstring_of (name_field req) = map of_char ''ggk''"
    and "CHR 0x00 \<notin> set ''Gobbledegook''
          \<and> kMaxAdvertisingShortNameLength < length ''Gobbledegook''
          \<longrightarrow> cstring_of (shortName_field req)
                = map of_char (take kMaxAdvertisingShortNameLength ''Gobbledegook'')
              \<and> length (cstring_of (shortName_field req)) = kMaxAdvertisingShortNameLength"
    by blast
  with h have "setName_request demo_platform demo_mgmt ''ggk'' ''Gobbledegook'' = Some req"
    "cstring_of (name_field req) = map of_char ''ggk''"
    "cstring_of (shortName_field req)
       = map of_char (take kMaxAdvertisingShortNameLength ''Gobbledegook'')"
    by blast+
  then have "\<exists>req. setName_request demo_platform demo_mgmt ''ggk'' ''Gobbledegook'' = Some req
         \<and> cstring_of (name_field req) = map of_char ''ggk''
         \<and> cstring_of (shortName_field req) = map of_char ''Gobbledego''"
    by (simp add: kMaxAdvertisingShortNameLength_def)
  with h e fr show ?thesis
    by (simp only: simp_thms)
qed

text \<open>
  The property as first stated fails for a name with a NUL byte inside: the name
  \<open>a\<close>, NUL, \<open>b\<close> has 3 bytes, within the maximum, and the field holds \<open>a\<close>, NUL, NUL.
\<close>
theorem setName_embedded_nul_counterexample:
  "length [CHR ''a'', CHR 0x00, CHR ''b''] \<le> kMaxAdvertisingNameLength
   \<and> map_option (take 3 \<circ> name_field)
        (setName_request demo_platform demo_mgmt [CHR ''a'', CHR 0x00, CHR ''b''] ''ggk'')
       = Some [0x61, 0, 0]
   \<and> map of_char [CHR ''a'', CHR 0x00, CHR ''b''] = [0x61, 0, 0x62 :: u8]"
proof -
  have f: "cfield 249 (c_str (truncateName [CHR ''a'', CHR 0x00, CHR ''b''])) = 0x61 # replicate 248 0"
    by (simp add: truncateName_take cfield_def c_str_def)
  have "map_option (take 3 \<circ> name_field)
          (setName_request demo_platform demo_mgmt [CHR ''a'', CHR 0x00, CHR ''b''] ''ggk'')
        = Some (take 3 (0x61 # replicate 248 0))"
    by (simp only: setName_request_bytes name_fields_of_request option.map comp_apply)
      (simp only: f)
  moreover have "take 3 (0x61 # replicate 248 (0::u8)) = [0x61, 0, 0]"
    by (simp add: take_Cons' numeral_2_eq_2)
  ultimately show ?thesis
    by (simp add: kMaxAdvertisingNameLength_def)
qed

text \<open>
  C4. When the caller keeps its contract, \<open>setRawAdvertisingData\<close> does exactly this to
  the adapter, in this order: it sends the set-powered command with state 0, waits 200
  milliseconds, and sends the add-advertising command with \<open>Instance\<close> = 1, \<open>Flags\<close> = 0,
  \<open>Duration\<close> = 0, \<open>Timeout\<close> = 0 and the caller's bytes. Between these steps the trace
  holds nothing but log messages.
\<close>
theorem setRawAdvertisingData_sequence:
  assumes "caller_contract adv"
  shows "\<exists>ok w'. setRawAdvertisingData P m adv w = Some (ok, w')
     \<and> actions (trace w')
       = actions (trace w)
         @ [Sent (le16 (ESetPoweredCommand P) @ le16 (controllerIndex m) @ le16 1 @ [0]),
            Slept (200 * 1000),
            Sent (le16 (EAddAdvertisingCommand P) @ le16 (controllerIndex m)
                  @ le16 (word_of_nat (11 + unat (advDataLen adv) + unat (rspDataLen adv)))
                  @ [1] @ le32 0 @ le16 0 @ le16 0 @ [advDataLen adv, rspDataLen adv]
                  @ adv_bytes adv @ rsp_bytes adv)]
     \<and> commands (trace w')
       = commands (trace w)
         @ [le16 (ESetPoweredCommand P) @ le16 (controllerIndex m) @ le16 1 @ [0],
            le16 (EAddAdvertisingCommand P) @ le16 (controllerIndex m)
            @ le16 (word_of_nat (11 + unat (advDataLen adv) + unat (rspDataLen adv)))
            @ [1] @ le32 0 @ le16 0 @ le16 0 @ [advDataLen adv, rspDataLen adv]
            @ adv_bytes adv @ rsp_bytes adv]
     \<and> (\<exists>logs1 logs2. trace w'
           = trace w
             @ [Sent (le16 (ESetPoweredCommand P) @ le16 (controllerIndex m) @ le16 1 @ [0])]
             @ logs1 @ [Slept (200 * 1000)]
             @ [Sent (le16 (EAddAdvertisingCommand P) @ le16 (controllerIndex m)
                  @ le16 (word_of_nat (11 + unat (advDataLen adv) + unat (rspDataLen adv)))
                  @ [1] @ le32 0 @ le16 0 @ le16 0 @ [advDataLen adv, rspDataLen adv]
                  @ adv_bytes adv @ rsp_bytes adv)]
             @ logs2
           \<and> actions logs1 = [] \<and> actions logs2 = [])"
proof -
  let ?p1 = "le16 (ESetPoweredCommand P) @ le16 (controllerIndex m) @ le16 1 @ [0]"
  let ?p2 = "le16 (EAddAdvertisingCommand P) @ le16 (controllerIndex m)
                  @ le16 (word_of_nat (11 + unat (advDataLen adv) + unat (rspDataLen adv)))
                  @ [1] @ le32 0 @ le16 0 @ le16 0 @ [advDataLen adv, rspDataLen adv]
                  @ adv_bytes adv @ rsp_bytes adv"
  obtain ok1 t1 where r1: "sendCommand P (hci w) ?p1 = (ok1, t1)"
    by (cases "sendCommand P (hci w) ?p1")
  obtain ok2 t2 where r2: "sendCommand P t1 ?p2 = (ok2, t2)"
    by (cases "sendCommand P t1 ?p2")
  let ?logs1 = "if ok1 then [] else [Logged Warn (setState_message P (ESetPoweredCommand P) 0)]"
  let ?logs2 = "if ok2 then [] else [Logged Warn ''  + Failed to set discoverable'']"
  let ?w' = "w\<lparr>hci := t2,
               trace := trace w @ [Sent ?p1] @ ?logs1 @ [Slept (200 * 1000), Sent ?p2] @ ?logs2\<rparr>"
  have run: "setRawAdvertisingData P m adv w = Some (ok2, ?w')"
    by (rule setRawAdvertisingData_run
        [OF setRawAdvertisingData_request_bytes [OF assms] refl r1 r2])
  have l: "actions ?logs1 = []" "actions ?logs2 = []"
    "commands ?logs1 = []" "commands ?logs2 = []"
    by simp_all
  have a: "actions (trace ?w') = actions (trace w) @ [Sent ?p1, Slept (200 * 1000), Sent ?p2]"
    by (simp add: l del: append_assoc)
  have c: "commands (trace ?w') = commands (trace w) @ [?p1, ?p2]"
    by (simp add: l)
  have t: "trace ?w' = trace w @ [Sent ?p1] @ ?logs1 @ [Slept (200 * 1000)] @ [Sent ?p2] @ ?logs2"
    by simp
  show ?thesis
    apply (rule exI [of _ ok2], rule exI [of _ ?w'])
    apply (intro conjI)
       apply (rule run)
      apply (rule a)
     apply (rule c)
    apply (rule exI [of _ ?logs1], rule exI [of _ ?logs2])
    apply (intro conjI t l)
    done
qed

text \<open>
  On the demo platform, with 10 advertising bytes and 5 scan-response bytes.
\<close>
theorem setRawAdvertisingData_sequence_witness:
  "caller_contract demo_adv \<and>
   (\<exists>ok w'. setRawAdvertisingData demo_platform demo_mgmt demo_adv fresh_world = Some (ok, w')
      \<and> actions (trace w')
        = [Sent [0x05, 0, 0, 0, 1, 0, 0],
           Slept 200000,
           Sent ([0x3E, 0, 0, 0, 26, 0, 1, 0, 0, 0, 0, 0, 0, 0, 0, 10, 5]
                 @ [1, 2, 3, 4, 5, 6, 7, 8, 9, 10] @ [0xA1, 0xA2, 0xA3, 0xA4, 0xA5])])"
proof -
  have h: "caller_contract demo_adv"
    by (simp add: caller_contract_def demo_adv_def readable_def)
  from setRawAdvertisingData_sequence [OF h, of demo_platform demo_mgmt fresh_world]
  obtain ok w' where
    "setRawAdvertisingData demo_platform demo_mgmt demo_adv fresh_world = Some (ok, w')"
    "actions (trace w')
       = actions (trace fresh_world)
         @ [Sent (le16 (ESetPoweredCommand demo_platform) @ le16 (controllerIndex demo_mgmt)
                  @ le16 1 @ [0]),
            Slept (200 * 1000),
            Sent (le16 (EAddAdvertisingCommand demo_platform) @ le16 (controllerIndex demo_mgmt)
                  @ le16 (word_of_nat (11 + unat (advDataLen demo_adv) + unat (rspDataLen demo_adv)))
                  @ [1] @ le32 0 @ le16 0 @ le16 0 @ [advDataLen demo_adv, rspDataLen demo_adv]
                  @ adv_bytes demo_adv @ rsp_bytes demo_adv)]"
    by blast
  then show ?thesis
    using h
    by (simp add: demo_adv_bytes demo_platform_def demo_mgmt_def fresh_world_def le16_def le32_def)
qed

text \<open>
  C5. Every packet built by \<open>setName\<close>, \<open>setDiscoverable\<close>, \<open>setState\<close> and
  \<open>setRawAdvertisingData\<close> begins with the 6-byte little-endian header \<open>code\<close>,
  \<open>controllerId\<close>, \<open>dataSize\<close>, the payload follows immediately, and \<open>dataSize\<close> is the
  size of the packet less the header: 260, 3, 1 and 11 + \<open>advDataLen\<close> + \<open>rspDataLen\<close>
  bytes of payload.
\<close>
theorem command_packets_framed:
  "(\<exists>pkt. setName_request P m name shortName = Some pkt
      \<and> framed pkt (ESetLocalNameCommand P) (controllerIndex m) 260
      \<and> length pkt = 6 + 260
      \<and> take 6 pkt = le16 (ESetLocalNameCommand P) @ le16 (controllerIndex m) @ le16 260)
   \<and> (\<exists>pkt. setDiscoverable_request P m disc timeout = Some pkt
      \<and> framed pkt (ESetDiscoverableCommand P) (controllerIndex m) 3
      \<and> length pkt = 6 + 3
      \<and> take 6 pkt = le16 (ESetDiscoverableCommand P) @ le16 (controllerIndex m) @ le16 3)
   \<and> (\<exists>pkt. setState_request P commandCode ctrl newState = Some pkt
      \<and> framed pkt commandCode ctrl 1
      \<and> length pkt = 6 + 1
      \<and> take 6 pkt = le16 commandCode @ le16 ctrl @ le16 1)
   \<and> (caller_contract adv \<longrightarrow>
       (\<exists>pkt. setRawAdvertisingData_request P m adv = Some pkt
          \<and> framed pkt (EAddAdvertisingCommand P) (controllerIndex m)
               (11 + unat (advDataLen adv) + unat (rspDataLen adv))
          \<and> length pkt = 6 + (11 + unat (advDataLen adv) + unat (rspDataLen adv))
          \<and> take 6 pkt = le16 (EAddAdvertisingCommand P) @ le16 (controllerIndex m)
               @ le16 (word_of_nat (11 + unat (advDataLen adv) + unat (rspDataLen adv)))))"
proof (intro conjI impI)
  show "\<exists>pkt. setName_request P m name shortName = Some pkt
      \<and> framed pkt (ESetLocalNameCommand P) (controllerIndex m) 260
      \<and> length pkt = 6 + 260
      \<and> take 6 pkt = le16 (ESetLocalNameCommand P) @ le16 (controllerIndex m) @ le16 260"
    using framed_packet [OF refl, of 260 260
        "cfield 249 (c_str (truncateName name)) @ cfield 11 (c_str (truncateShortName shortName))"
        "ESetLocalNameCommand P" "controllerIndex m"]
    by (simp add: setName_request_bytes length_cfield)
next
  show "\<exists>pkt. setDiscoverable_request P m disc timeout = Some pkt
      \<and> framed pkt (ESetDiscoverableCommand P) (controllerIndex m) 3
      \<and> length pkt = 6 + 3
      \<and> take 6 pkt = le16 (ESetDiscoverableCommand P) @ le16 (controllerIndex m) @ le16 3"
    using framed_packet [OF refl, of 3 3 "[disc] @ le16 timeout"
        "ESetDiscoverableCommand P" "controllerIndex m"]
    by (simp add: setDiscoverable_request_bytes)
next
  show "\<exists>pkt. setState_request P commandCode ctrl newState = Some pkt
      \<and> framed pkt commandCode ctrl 1
      \<and> length pkt = 6 + 1
      \<and> take 6 pkt = le16 commandCode @ le16 ctrl @ le16 1"
    using framed_packet [OF refl, of 1 1 "[newState]" commandCode ctrl]
    by (simp add: setState_request_bytes)
next
  assume cc: "caller_contract adv"
  let ?n = "11 + unat (advDataLen adv) + unat (rspDataLen adv)"
  let ?payload = "[1] @ le32 0 @ le16 0 @ le16 0 @ [advDataLen adv, rspDataLen adv]
                    @ adv_bytes adv @ rsp_bytes adv"
  have lp: "length ?payload = ?n"
    by (simp add: length_adv_bytes [OF cc] length_rsp_bytes [OF cc])
  from framed_packet [OF refl unat_adv_dataSize lp, of "EAddAdvertisingCommand P" "controllerIndex m"]
  show "\<exists>pkt. setRawAdvertisingData_request P m adv = Some pkt
          \<and> framed pkt (EAddAdvertisingCommand P) (controllerIndex m) ?n
          \<and> length pkt = 6 + ?n
          \<and> take 6 pkt = le16 (EAddAdvertisingCommand P) @ le16 (controllerIndex m)
               @ le16 (word_of_nat ?n)"
    by (simp add: setRawAdvertisingData_request_bytes [OF cc])
qed

text \<open>
  On the demo platform: the add-advertising packet for 10 and 5 bytes has a payload of 26
  bytes behind the header \<open>3E 00 00 00 1A 00\<close>, the set-powered packet a payload of one
  byte behind \<open>05 00 00 00 01 00\<close>.
\<close>
theorem command_packets_framed_witness:
  "caller_contract demo_adv
   \<and> (\<exists>pkt. setRawAdvertisingData_request demo_platform demo_mgmt demo_adv = Some pkt
         \<and> framed pkt 0x003E 0 26 \<and> length pkt = 32
         \<and> take 6 pkt = [0x3E, 0, 0, 0, 26, 0])
   \<and> (\<exists>pkt. setState_request demo_platform 0x0005 0 1 = Some pkt
         \<and> framed pkt 0x0005 0 1 \<and> length pkt = 7
         \<and> take 6 pkt = [0x05, 0, 0, 0, 1, 0])"
proof -
  have h: "caller_contract demo_adv"
    by (simp add: caller_contract_def demo_adv_def readable_def)
  note c = command_packets_framed [of demo_platform demo_mgmt "[]" "[]" 0 0 "0x0005" 0 1 demo_adv]
  from c h obtain pkt where
    "setRawAdvertisingData_request demo_platform demo_mgmt demo_adv = Some pkt"
    "framed pkt (EAddAdvertisingCommand demo_platform) (controllerIndex demo_mgmt)
       (11 + unat (advDataLen demo_adv) + unat (rspDataLen demo_adv))"
    "length pkt = 6 + (11 + unat (advDataLen demo_adv) + unat (rspDataLen demo_adv))"
    "take 6 pkt = le16 (EAddAdvertisingCommand demo_platform) @ le16 (controllerIndex demo_mgmt)
       @ le16 (word_of_nat (11 + unat (advDataLen demo_adv) + unat (rspDataLen demo_adv)))"
    by blast
  then have a: "\<exists>pkt. setRawAdvertisingData_request demo_platform demo_mgmt demo_adv = Some pkt
         \<and> framed pkt 0x003E 0 26 \<and> length pkt = 32
         \<and> take 6 pkt = [0x3E, 0, 0, 0, 26, 0]"
    by (simp add: demo_adv_bytes demo_platform_def demo_mgmt_def le16_def)
  from c obtain pkt' where
    "setState_request demo_platform 0x0005 0 1 = Some pkt'"
    "framed pkt' 0x0005 0 1" "length pkt' = 6 + 1"
    "take 6 pkt' = le16 0x0005 @ le16 0 @ le16 1"
    by blast
  then have b: "\<exists>pkt. setState_request demo_platform 0x0005 0 1 = Some pkt
         \<and> framed pkt 0x0005 0 1 \<and> length pkt = 7
         \<and> take 6 pkt = [0x05, 0, 0, 0, 1, 0]"
    by (simp add: le16_def)
  from h a b show ?thesis by (intro conjI)
qed

text \<open>
  C6. Reading back the packet built by the shared single-byte encoder gives the command
  code, the controller id and the state byte that were asked for; each of the seven state
  setters hands the transport one packet that reads back as its own command code, the
  controller index and the requested state byte (1 or 0 for the boolean setters).
\<close>
theorem setState_round_trip:
  "Option.bind (setState_request P c i s) decode_setState = Some (c, i, s)
   \<and> (\<exists>ok w' pkt. setPowered P m b w = Some (ok, w')
         \<and> commands (trace w') = commands (trace w) @ [pkt]
         \<and> decode_setState pkt
           = Some (ESetPoweredCommand P, controllerIndex m, if b then 1 else 0))
   \<and> (\<exists>ok w' pkt. setBredr P m b w = Some (ok, w')
         \<and> commands (trace w') = commands (trace w) @ [pkt]
         \<and> decode_setState pkt
           = Some (ESetBREDRCommand P, controllerIndex m, if b then 1 else 0))
   \<and> (\<exists>ok w' pkt. setSecureConnections P m s w = Some (ok, w')
         \<and> commands (trace w') = commands (trace w) @ [pkt]
         \<and> decode_setState pkt
           = Some (ESetSecureConnectionsCommand P, controllerIndex m, s))
   \<and> (\<exists>ok w' pkt. setBondable P m b w = Some (ok, w')
         \<and> commands (trace w') = commands (trace w) @ [pkt]
         \<and> decode_setState pkt
           = Some (ESetBondableCommand P, controllerIndex m, if b then 1 else 0))
   \<and> (\<exists>ok w' pkt. setConnectable P m b w = Some (ok, w')
         \<and> commands (trace w') = commands (trace w) @ [pkt]
         \<and> decode_setState pkt
           = Some (ESetConnectableCommand P, controllerIndex m, if b then 1 else 0))
   \<and> (\<exists>ok w' pkt. setLE P m b w = Some (ok, w')
         \<and> commands (trace w') = commands (trace w) @ [pkt]
         \<and> decode_setState pkt
           = Some (ESetLowEnergyCommand P, controllerIndex m, if b then 1 else 0))
   \<and> (\<exists>ok w' pkt. setAdvertising P m s w = Some (ok, w')
         \<and> commands (trace w') = commands (trace w) @ [pkt]
         \<and> decode_setState pkt
           = Some (ESetAdvertisingCommand P, controllerIndex m, s))"
  unfolding setPowered_def setBredr_def setSecureConnections_def setBondable_def
    setConnectable_def setLE_def setAdvertising_def
  by (intro conjI setState_decodes) (simp add: setState_request_bytes decode_setState_bytes)

text \<open>
  C7, amended. Each of the nine simple setters builds one request, hands it to the
  transport exactly once and returns the transport's answer; on failure it logs exactly one
  warning and returns false, with no second attempt, and it always returns. The warning of
  the setters built on \<open>setState\<close> names the command and the attempted state value; the
  warnings of \<open>setName\<close> and \<open>setDiscoverable\<close> are fixed texts that name the setting
  only.
\<close>
theorem simple_setters_one_command:
  "one_command P w (setName_request P m name shortName) ''  + Failed to set name''
     (setName P m name shortName w)
   \<and> one_command P w (setDiscoverable_request P m disc timeout)
       ''  + Failed to set discoverable'' (setDiscoverable P m disc timeout w)
   \<and> one_command P w
       (setState_request P (ESetPoweredCommand P) (controllerIndex m) (if b then 1 else 0))
       (setState_message P (ESetPoweredCommand P) (if b then 1 else 0))
       (setPowered P m b w)
   \<and> one_command P w
       (setState_request P (ESetBREDRCommand P) (controllerIndex m) (if b then 1 else 0))
       (setState_message P (ESetBREDRCommand P) (if b then 1 else 0))
       (setBredr P m b w)
   \<and> one_command P w
       (setState_request P (ESetSecureConnectionsCommand P) (controllerIndex m) s)
       (setState_message P (ESetSecureConnectionsCommand P) s)
       (setSecureConnections P m s w)
   \<and> one_command P w
       (setState_request P (ESetBondableCommand P) (controllerIndex m) (if b then 1 else 0))
       (setState_message P (ESetBondableCommand P) (if b then 1 else 0))
       (setBondable P m b w)
   \<and> one_command P w
       (setState_request P (ESetConnectableCommand P) (controllerIndex m) (if b then 1 else 0))
       (setState_message P (ESetConnectableCommand P) (if b then 1 else 0))
       (setConnectable P m b w)
   \<and> one_command P w
       (setState_request P (ESetLowEnergyCommand P) (controllerIndex m) (if b then 1 else 0))
       (setState_message P (ESetLowEnergyCommand P) (if b then 1 else 0))
       (setLE P m b w)
   \<and> one_command P w
       (setState_request P (ESetAdvertisingCommand P) (controllerIndex m) s)
       (setState_message P (ESetAdvertisingCommand P) s)
       (setAdvertising P m s w)
   \<and> mentions (kCommandCodeNames P c) (setState_message P c s)
   \<and> mentions (decimal (unat s)) (setState_message P c s)"
  unfolding setPowered_def setBredr_def setSecureConnections_def setBondable_def
    setConnectable_def setLE_def setAdvertising_def
  by (intro conjI setState_one_command setName_one_command setDiscoverable_one_command
      conjunct1 [OF setState_message_mentions] conjunct2 [OF setState_message_mentions])

text \<open>
  On the demo platform the first command is rejected: \<open>setPowered(true)\<close> sends one
  packet, logs the command name and the value 1, and returns false.
\<close>
theorem simple_setters_one_command_witness:
  "setPowered demo_platform demo_mgmt True fresh_world
     = Some (False, \<lparr>hci = 1, trace = [Sent [5, 0, 0, 0, 1, 0, 1],
                                        Logged Warn ''  + Failed to set Command state to: 1'']\<rparr>)"
proof -
  from simple_setters_one_command [of demo_platform fresh_world demo_mgmt "[]" "[]" 0 0 True 0 0]
  have "one_command demo_platform fresh_world
          (setState_request demo_platform (ESetPoweredCommand demo_platform)
             (controllerIndex demo_mgmt) (if True then 1 else 0))
          (setState_message demo_platform (ESetPoweredCommand demo_platform)
             (if True then 1 else 0))
          (setPowered demo_platform demo_mgmt True fresh_world)"
    by blast
  then show ?thesis
    by (simp add: one_command_def setState_request_bytes setState_message_def
        demo_platform_def demo_mgmt_def fresh_world_def le16_def decimal.simps digit_def)
qed

text \<open>
  The property as first stated fails for \<open>setName\<close>: when the transport rejects the command
  the one warning is \<open>"  + Failed to set name"\<close>, which holds neither the name nor the
  short name that were attempted.
\<close>
theorem setName_diagnostic_counterexample:
  "map_option fst (setName demo_platform demo_mgmt ''Zed'' ''Z'' fresh_world) = Some False
   \<and> map_option (warnings \<circ> trace \<circ> snd)
        (setName demo_platform demo_mgmt ''Zed'' ''Z'' fresh_world)
       = Some [''  + Failed to set name'']
   \<and> \<not> mentions ''Zed'' ''  + Failed to set name''
   \<and> \<not> mentions ''Z'' ''  + Failed to set name''"
  by (simp add: setName_def setName_request_bytes HciAdapter_sendCommand_def Logger_warn_def
      demo_platform_def fresh_world_def)

text \<open>
  C8. \<open>ggkPopUpdateQueue\<close> answers one of three values: 1 together with the oldest entry,
  0 exactly when the queue is empty, and -1 exactly when there is an entry and the
  caller's buffer is too small for it. Popping from the empty queue answers 0, which is not
  the error value, and leaves the queue empty. Pushing does not change which entry is the
  oldest.
\<close>
theorem ggkPopUpdateQueue_tristate:
  "fst (ggkPopUpdateQueue need q elementLen keep) \<in> {1, 0, - 1}
   \<and> (fst (ggkPopUpdateQueue need q elementLen keep) = 0 \<longleftrightarrow> q = [])
   \<and> (fst (ggkPopUpdateQueue need q elementLen keep) = - 1
        \<longleftrightarrow> q \<noteq> [] \<and> elementLen < int (need (last q)))
   \<and> (fst (ggkPopUpdateQueue need q elementLen keep) = 1
        \<longleftrightarrow> q \<noteq> [] \<and> int (need (last q)) \<le> elementLen)
   \<and> (fst (ggkPopUpdateQueue need q elementLen keep) = 1
        \<longrightarrow> fst (snd (ggkPopUpdateQueue need q elementLen keep)) = Some (last q)
            \<and> snd (snd (ggkPopUpdateQueue need q elementLen keep))
                = (if keep then q else butlast q))
   \<and> (fst (ggkPopUpdateQueue need q elementLen keep) \<noteq> 1
        \<longrightarrow> snd (ggkPopUpdateQueue need q elementLen keep) = (None, q))
   \<and> ggkPopUpdateQueue need [] elementLen keep = (0, None, [])
   \<and> (q \<noteq> [] \<longrightarrow> last (snd (ggkPushUpdateQueue q pObjectPath pInterfaceName)) = last q)"
  by (simp add: ggkPopUpdateQueue_def ggkPushUpdateQueue_def)

text \<open>
  A queue of two entries: a buffer of 16 bytes receives the entry pushed first, a buffer
  of 4 bytes is an error, and the empty queue answers 0. A push leaves the oldest entry
  where it was.
\<close>
theorem ggkPopUpdateQueue_tristate_witness:
  "ggkPopUpdateQueue (\<lambda>e. length (fst e) + length (snd e) + 2)
      [(''/c/b'', ''I''), (''/c/a'', ''I'')] 16 False
     = (1, Some (''/c/a'', ''I''), [(''/c/b'', ''I'')])
   \<and> fst (ggkPopUpdateQueue (\<lambda>e. length (fst e) + length (snd e) + 2)
      [(''/c/b'', ''I''), (''/c/a'', ''I'')] 4 False) = - 1
   \<and> fst (ggkPopUpdateQueue (\<lambda>e. length (fst e) + length (snd e) + 2) [] 4 False) = 0
   \<and> last (snd (ggkPushUpdateQueue [(''/c/a'', ''I'')] ''/c/b'' ''I'')) = (''/c/a'', ''I'')"
proof -
  let ?need = "\<lambda>e :: entry. length (fst e) + length (snd e) + 2"
  let ?q = "[(''/c/b'', ''I''), (''/c/a'', ''I'')]"
  have a: "ggkPopUpdateQueue ?need ?q 16 False = (1, Some (''/c/a'', ''I''), [(''/c/b'', ''I'')])"
    using ggkPopUpdateQueue_tristate [of ?need ?q 16 False]
    by (cases "ggkPopUpdateQueue ?need ?q 16 False") simp
  have b: "fst (ggkPopUpdateQueue ?need ?q 4 False) = - 1"
    using ggkPopUpdateQueue_tristate [of ?need ?q 4 False] by simp
  have c: "fst (ggkPopUpdateQueue ?need [] 4 False) = 0"
    using ggkPopUpdateQueue_tristate [of ?need "[]" 4 False] by simp
  have d: "last (snd (ggkPushUpdateQueue [(''/c/a'', ''I'')] ''/c/b'' ''I'')) = (''/c/a'', ''I'')"
    using ggkPopUpdateQueue_tristate [of ?need "[(''/c/a'', ''I'')]" 0 False "''/c/b''" "''I''"]
    by simp
  from a b c d show ?thesis by (intro conjI)
qed

text \<open>
  C9. Whatever triggers arrive, the run state never moves backward in the order
  \<open>Uninitialized\<close>, \<open>Initializing\<close>, \<open>Running\<close>, \<open>Stopping\<close>, \<open>Stopped\<close>; \<open>Stopped\<close> is
  never left; and a health that has been set to \<open>FailedInit\<close> or \<open>FailedRun\<close> stays as it
  is, so it is never \<open>Ok\<close> again.
\<close>
theorem lifecycle_forward_only:
  "run_state_value (runState sv) \<le> run_state_value (runState (lifecycle_run sv ts))
   \<and> (runState sv = EStopped \<longrightarrow> runState (lifecycle_run sv ts) = EStopped)
   \<and> (health sv \<noteq> EOk \<longrightarrow> health (lifecycle_run sv ts) = health sv
                              \<and> health (lifecycle_run sv ts) \<noteq> EOk)
   \<and> lifecycle_run sv (ts @ us) = lifecycle_run (lifecycle_run sv ts) us"
proof (intro conjI impI)
  show m: "run_state_value (runState sv) \<le> run_state_value (runState (lifecycle_run sv ts))"
    by (rule run_state_value_run)
  show "runState (lifecycle_run sv ts) = EStopped" if "runState sv = EStopped"
  proof -
    from that m have "4 \<le> run_state_value (runState (lifecycle_run sv ts))" by simp
    with run_state_value_max [of "runState (lifecycle_run sv ts)"]
    have "run_state_value (runState (lifecycle_run sv ts)) = 4" by simp
    then show ?thesis by (simp only: run_state_value_Stopped)
  qed
  show "health (lifecycle_run sv ts) = health sv" if "health sv \<noteq> EOk"
    using that by (rule health_run)
  show "health (lifecycle_run sv ts) \<noteq> EOk" if "health sv \<noteq> EOk"
    using that by (simp add: health_run)
  show "lifecycle_run sv (ts @ us) = lifecycle_run (lifecycle_run sv ts) us"
    by (simp add: lifecycle_run_def)
qed

text \<open>
  A server that fails while running: it reaches \<open>Stopping\<close> with \<open>FailedRun\<close>, then
  \<open>Stopped\<close>, and later triggers change neither.
\<close>
theorem lifecycle_forward_only_witness:
  "lifecycle_run \<lparr>runState = EUninitialized, health = EOk\<rparr>
      [InitializationBegins, InitializationCompletes, UnrecoverableError]
     = \<lparr>runState = EStopping, health = EFailedRun\<rparr>
   \<and> lifecycle_run \<lparr>runState = EStopping, health = EFailedRun\<rparr>
        [InitializationBegins, EventLoopExits, InitializationCompletes, UnrecoverableError]
     = \<lparr>runState = EStopped, health = EFailedRun\<rparr>
   \<and> lifecycle_run \<lparr>runState = EStopped, health = EFailedRun\<rparr>
        [InitializationBegins, ShutdownRequested]
     = \<lparr>runState = EStopped, health = EFailedRun\<rparr>"
proof -
  let ?s2 = "\<lparr>runState = EStopping, health = EFailedRun\<rparr>"
  let ?s3 = "\<lparr>runState = EStopped, health = EFailedRun\<rparr>"
  have a: "lifecycle_run \<lparr>runState = EUninitialized, health = EOk\<rparr>
      [InitializationBegins, InitializationCompletes, UnrecoverableError] = ?s2"
    by (simp add: lifecycle_run_def toward_stopping_def failure_health_def)
  have b: "lifecycle_run ?s2
        [InitializationBegins, EventLoopExits, InitializationCompletes, UnrecoverableError] = ?s3"
    by (simp add: lifecycle_run_def toward_stopping_def failure_health_def)
  have "runState (lifecycle_run ?s3 [InitializationBegins, ShutdownRequested]) = EStopped"
    "health (lifecycle_run ?s3 [InitializationBegins, ShutdownRequested]) = EFailedRun"
    using lifecycle_forward_only [of ?s3 "[InitializationBegins, ShutdownRequested]" "[]"]
    by simp_all
  then have c: "lifecycle_run ?s3 [InitializationBegins, ShutdownRequested] = ?s3"
    by (cases "lifecycle_run ?s3 [InitializationBegins, ShutdownRequested]") simp
  from a b c show ?thesis by (intro conjI)
qed

text \<open>
  C10. What \<open>setRawAdvertisingData\<close> returns is the transport's answer to the
  add-advertising command, whatever the answer to the power-off command before it was.
  When both lengths are 0 the call never reads through the caller's pointers: it returns
  for any pointers, null ones too, and its result does not depend on them.
\<close>
theorem setRawAdvertisingData_result:
  "(caller_contract adv \<longrightarrow>
      map_option fst (setRawAdvertisingData P m adv w)
        = Some (fst (sendCommand P
                  (snd (sendCommand P (hci w)
                     (le16 (ESetPoweredCommand P) @ le16 (controllerIndex m) @ le16 1 @ [0])))
                  (le16 (EAddAdvertisingCommand P) @ le16 (controllerIndex m)
                   @ le16 (word_of_nat (11 + unat (advDataLen adv) + unat (rspDataLen adv)))
                   @ [1] @ le32 0 @ le16 0 @ le16 0 @ [advDataLen adv, rspDataLen adv]
                   @ adv_bytes adv @ rsp_bytes adv))))
   \<and> (advDataLen adv = 0 \<and> rspDataLen adv = 0 \<longrightarrow>
        setRawAdvertisingData P m adv w \<noteq> None
        \<and> (\<forall>p q. setRawAdvertisingData P m (adv\<lparr>advData := p, rspData := q\<rparr>) w
                  = setRawAdvertisingData P m adv w))"
proof (intro conjI impI allI)
  assume cc: "caller_contract adv"
  let ?p1 = "le16 (ESetPoweredCommand P) @ le16 (controllerIndex m) @ le16 1 @ [0]"
  let ?p2 = "le16 (EAddAdvertisingCommand P) @ le16 (controllerIndex m)
                  @ le16 (word_of_nat (11 + unat (advDataLen adv) + unat (rspDataLen adv)))
                  @ [1] @ le32 0 @ le16 0 @ le16 0 @ [advDataLen adv, rspDataLen adv]
                  @ adv_bytes adv @ rsp_bytes adv"
  obtain ok1 t1 where r1: "sendCommand P (hci w) ?p1 = (ok1, t1)"
    by (cases "sendCommand P (hci w) ?p1")
  obtain ok2 t2 where r2: "sendCommand P t1 ?p2 = (ok2, t2)"
    by (cases "sendCommand P t1 ?p2")
  have run: "map_option fst (setRawAdvertisingData P m adv w) = Some ok2"
    by (simp add: setRawAdvertisingData_run
        [OF setRawAdvertisingData_request_bytes [OF cc] refl r1 r2])
  have "fst (sendCommand P (snd (sendCommand P (hci w) ?p1)) ?p2) = ok2"
    by (simp only: r1 r2 fst_conv snd_conv)
  with run show "map_option fst (setRawAdvertisingData P m adv w)
          = Some (fst (sendCommand P (snd (sendCommand P (hci w) ?p1)) ?p2))"
    by (simp only:)
next
  assume z: "advDataLen adv = 0 \<and> rspDataLen adv = 0"
  then show "setRawAdvertisingData P m adv w \<noteq> None"
    by (intro setRawAdvertisingData_Some setRawAdvertisingData_request_empty) simp_all
next
  fix p q
  assume z: "advDataLen adv = 0 \<and> rspDataLen adv = 0"
  then have "setRawAdvertisingData_request P m (adv\<lparr>advData := p, rspData := q\<rparr>)
               = setRawAdvertisingData_request P m adv"
    by (intro setRawAdvertisingData_request_empty) simp_all
  then show "setRawAdvertisingData P m (adv\<lparr>advData := p, rspData := q\<rparr>) w
               = setRawAdvertisingData P m adv w"
    by (simp add: setRawAdvertisingData_def)
qed

text \<open>
  On the demo platform the transport rejects the power-off command and accepts the
  add-advertising command: the call returns true. With both lengths 0 and both pointers
  null the call returns as well.
\<close>
theorem setRawAdvertisingData_result_witness:
  "caller_contract demo_adv
   \<and> fst (sendCommand demo_platform (hci fresh_world) [0x05, 0, 0, 0, 1, 0, 0]) = False
   \<and> map_option fst (setRawAdvertisingData demo_platform demo_mgmt demo_adv fresh_world)
       = Some True
   \<and> setRawAdvertisingData demo_platform demo_mgmt
        \<lparr>advDataLen = 0, rspDataLen = 0, advData = None, rspData = None\<rparr> fresh_world \<noteq> None"
proof -
  have h: "caller_contract demo_adv"
    by (simp add: caller_contract_def demo_adv_def readable_def)
  have f: "fst (sendCommand demo_platform (hci fresh_world) [0x05, 0, 0, 0, 1, 0, 0]) = False"
    by (simp add: demo_platform_def fresh_world_def)
  from setRawAdvertisingData_result [of demo_adv demo_platform demo_mgmt fresh_world] h
  have a: "map_option fst (setRawAdvertisingData demo_platform demo_mgmt demo_adv fresh_world)
       = Some True"
    by (simp add: demo_platform_def)
  from setRawAdvertisingData_result
    [of "\<lparr>advDataLen = 0, rspDataLen = 0, advData = None, rspData = None\<rparr>"
      demo_platform demo_mgmt fresh_world]
  have b: "setRawAdvertisingData demo_platform demo_mgmt
        \<lparr>advDataLen = 0, rspDataLen = 0, advData = None, rspData = None\<rparr> fresh_world \<noteq> None"
    by simp
  from h f a b show ?thesis by blast
qed

end
